theory Spec2Isabelle
  imports Complex_Main
begin

section \<open>Host status codes and Python exceptions\<close>

text \<open>
  An operator callback returns a one-element set such as \<^verbatim>\<open>{'CANCELLED'}\<close>; the
  four codes used by the two source files are the constructors of \<open>status\<close>.
  A Python exception that leaves a callback is a value of \<open>error\<close>.
\<close>

datatype status = CANCELLED | FINISHED | RUNNING_MODAL | PASS_THROUGH

datatype error =
  ValueError | LinAlgError | ZeroDivisionError | IndexError
  | AttributeError | TypeError | ReferenceError


section \<open>The freehand drawing demo (\<^verbatim>\<open>templates_py/operator_modal_draw.py\<close>)\<close>

text \<open>
  The module keeps three globals: \<^verbatim>\<open>strokes\<close>, \<^verbatim>\<open>redo_stack\<close> and
  \<^verbatim>\<open>current_stroke\<close>. A stroke is a Python list of pixel pairs and lists are
  shared by reference: \<^verbatim>\<open>strokes.append(current_stroke)\<close> stores the very list
  that later \<^verbatim>\<open>current_stroke.append(...)\<close> calls extend. The model therefore
  keeps the stroke lists in a store \<open>heap\<close> indexed by references, and
  \<open>strokes\<close>, \<open>redo_stack\<close> and \<open>current_stroke\<close> hold references.
  \<open>next_ref\<close> is the next unused reference. \<open>current_stroke\<close> is an option
  because the source tests it against \<^verbatim>\<open>None\<close>.

  The host side is \<open>draw_handlers\<close> (the handles registered with the viewport),
  \<open>handle\<close> (the operator attribute \<^verbatim>\<open>self._handle\<close>, assigned by
  \<^verbatim>\<open>invoke\<close> before any event is delivered) and \<open>redraw_tags\<close> (how often
  \<^verbatim>\<open>context.area.tag_redraw()\<close> has been called).
\<close>

type_synonym ref = nat

record draw_state =
  heap :: "ref \<Rightarrow> (int \<times> int) list"
  next_ref :: ref
  strokes :: "ref list"
  redo_stack :: "ref list"
  current_stroke :: "ref option"
  draw_handlers :: "nat list"
  next_handle :: nat
  handle :: nat
  redraw_tags :: nat

record event =
  ev_type :: string
  ev_value :: string
  mouse_region_x :: int
  mouse_region_y :: int

text \<open>The module's initial globals: three distinct empty lists.\<close>

definition module_init :: draw_state where
  "module_init =
     \<lparr>heap = (\<lambda>_. []), next_ref = 1, strokes = [], redo_stack = [],
      current_stroke = Some 0, draw_handlers = [], next_handle = 0, handle = 0,
      redraw_tags = 0\<rparr>"

text \<open>
  Modelled from the spec: the host's viewport draw-handler registration
  (\<^verbatim>\<open>SpaceView3D.draw_handler_add\<close> and \<^verbatim>\<open>draw_handler_remove\<close>), which is not
  part of the two source files. Adding registers a fresh handle and returns it;
  removing unregisters the handle.
\<close>

definition draw_handler_add :: "draw_state \<Rightarrow> nat \<times> draw_state" where
  "draw_handler_add s =
     (next_handle s,
      s\<lparr>draw_handlers := draw_handlers s @ [next_handle s],
        next_handle := next_handle s + 1\<rparr>)"

definition draw_handler_remove :: "nat \<Rightarrow> draw_state \<Rightarrow> draw_state" where
  "draw_handler_remove h s = s\<lparr>draw_handlers := removeAll h (draw_handlers s)\<rparr>"

definition tag_redraw :: "draw_state \<Rightarrow> draw_state" where
  "tag_redraw s = s\<lparr>redraw_tags := redraw_tags s + 1\<rparr>"

text \<open>\<^verbatim>\<open>current_stroke = []\<close>: a new empty list object, bound to the global.\<close>

definition new_current_stroke :: "draw_state \<Rightarrow> draw_state" where
  "new_current_stroke s =
     s\<lparr>heap := (heap s)(next_ref s := []),
       current_stroke := Some (next_ref s),
       next_ref := next_ref s + 1\<rparr>"

text \<open>\<^verbatim>\<open>redo_stack.append(strokes.pop())\<close> and \<^verbatim>\<open>strokes.append(redo_stack.pop())\<close>.
  Both are called only on a non-empty source list.\<close>

definition undo_move :: "draw_state \<Rightarrow> draw_state" where
  "undo_move s =
     s\<lparr>redo_stack := redo_stack s @ [last (strokes s)], strokes := butlast (strokes s)\<rparr>"

definition redo_move :: "draw_state \<Rightarrow> draw_state" where
  "redo_move s =
     s\<lparr>strokes := strokes s @ [last (redo_stack s)], redo_stack := butlast (redo_stack s)\<rparr>"

definition ModalDrawOperator_modal :: "draw_state \<Rightarrow> event \<Rightarrow> status \<times> draw_state" where
  "ModalDrawOperator_modal s0 e =
     (let s = tag_redraw s0 in
      if ev_type e \<in> {''RIGHTMOUSE'', ''ESC''} then
        (CANCELLED, draw_handler_remove (handle s) s)
      else if ev_type e = ''LEFTMOUSE'' then
        (if ev_value e = ''PRESS'' then
           (let r = next_ref s;
                s1 = new_current_stroke s
            in (RUNNING_MODAL, s1\<lparr>strokes := strokes s1 @ [r], redo_stack := []\<rparr>))
         else if ev_value e = ''RELEASE'' then
           (RUNNING_MODAL, new_current_stroke s)
         else (RUNNING_MODAL, s))
      else if ev_type e = ''MOUSEMOVE'' \<and> current_stroke s \<noteq> None then
        (case current_stroke s of
           Some c \<Rightarrow>
             (RUNNING_MODAL,
              s\<lparr>heap := (heap s)(c := heap s c @ [(mouse_region_x e, mouse_region_y e)])\<rparr>)
         | None \<Rightarrow> (RUNNING_MODAL, s))
      else if ev_type e = ''Z'' \<and> ev_value e = ''PRESS'' then
        (if strokes s \<noteq> [] then (RUNNING_MODAL, undo_move s) else (RUNNING_MODAL, s))
      else if ev_type e = ''Y'' \<and> ev_value e = ''PRESS'' then
        (if redo_stack s \<noteq> [] then (RUNNING_MODAL, redo_move s) else (RUNNING_MODAL, s))
      else (RUNNING_MODAL, s))"

definition ModalDrawOperator_invoke :: "draw_state \<Rightarrow> status \<times> draw_state" where
  "ModalDrawOperator_invoke s =
     (case draw_handler_add s of (h, s') \<Rightarrow> (RUNNING_MODAL, s'\<lparr>handle := h\<rparr>))"

definition StrokeUndo_execute :: "draw_state \<Rightarrow> status \<times> draw_state" where
  "StrokeUndo_execute s =
     (if strokes s \<noteq> [] then (FINISHED, tag_redraw (undo_move s)) else (FINISHED, s))"

definition StrokeRedo_execute :: "draw_state \<Rightarrow> status \<times> draw_state" where
  "StrokeRedo_execute s =
     (if redo_stack s \<noteq> [] then (FINISHED, tag_redraw (redo_move s)) else (FINISHED, s))"

text \<open>
  Modelled from the spec: the host's modal event dispatch, which is not part of the
  source files. A modal operator is resumed on each delivered event for as long as it
  answers \<open>RUNNING_MODAL\<close> or \<open>PASS_THROUGH\<close>; any other answer ends the loop and
  the remaining events are not delivered to it. The result is the last answer, or
  \<open>None\<close> when the operator is still modal after the last event.
\<close>

fun modal_loop ::
  "('s \<Rightarrow> event \<Rightarrow> 'r \<times> 's) \<Rightarrow> ('r \<Rightarrow> bool) \<Rightarrow> 's \<Rightarrow> event list \<Rightarrow> 'r option \<times> 's" where
  "modal_loop step continues s [] = (None, s)"
| "modal_loop step continues s (e # es) =
     (case step s e of
        (r, s') \<Rightarrow> if continues r then modal_loop step continues s' es else (Some r, s'))"

definition draw_modal_loop :: "draw_state \<Rightarrow> event list \<Rightarrow> status option \<times> draw_state" where
  "draw_modal_loop =
     modal_loop ModalDrawOperator_modal (\<lambda>st. st = RUNNING_MODAL \<or> st = PASS_THROUGH)"

text \<open>The contents of the strokes a reference list points to.\<close>

definition contents :: "draw_state \<Rightarrow> ref list \<Rightarrow> (int \<times> int) list list" where
  "contents s rs = map (heap s) rs"

definition ev :: "string \<Rightarrow> string \<Rightarrow> int \<Rightarrow> int \<Rightarrow> event" where
  "ev t v x y = \<lparr>ev_type = t, ev_value = v, mouse_region_x = x, mouse_region_y = y\<rparr>"


section \<open>Masking with the layer above or below (\<^verbatim>\<open>bl_operators/grease_pencil.py\<close>)\<close>

text \<open>
  \<^verbatim>\<open>mode\<close> is an enum property with the two items below. A node of the layer tree
  is a layer or a layer group; the source tells them apart by
  \<^verbatim>\<open>type(masking_layer) != bpy.types.GreasePencilLayer\<close>. The active layer carries
  its two neighbours, the names of its masks (what
  \<^verbatim>\<open>name in active_layer.mask_layers\<close> looks at) and the flag \<^verbatim>\<open>use_masks\<close>.
  \<open>mask_reports\<close> collects the calls of \<^verbatim>\<open>self.report\<close> as pairs of level and
  message.
\<close>

datatype mode = ABOVE | BELOW

datatype tree_node = GreasePencilLayer string | GreasePencilLayerGroup string

record layer =
  next_node :: "tree_node option"
  prev_node :: "tree_node option"
  mask_layers :: "string list"
  use_masks :: bool

record mask_state =
  active_layer :: layer
  mask_reports :: "(string \<times> string) list"

definition mask_report :: "string \<Rightarrow> string \<Rightarrow> mask_state \<Rightarrow> mask_state" where
  "mask_report level msg s = s\<lparr>mask_reports := mask_reports s @ [(level, msg)]\<rparr>"

text \<open>
  Modelled from the spec: the host operator \<^verbatim>\<open>bpy.ops.grease_pencil.layer_mask_add\<close>
  (``mask list mutation''), which is not part of the source files: it adds a mask
  with the given layer name to the active layer's mask list.
\<close>

definition layer_mask_add :: "string \<Rightarrow> mask_state \<Rightarrow> mask_state" where
  "layer_mask_add name s =
     s\<lparr>active_layer := (active_layer s)\<lparr>mask_layers := mask_layers (active_layer s) @ [name]\<rparr>\<rparr>"

definition relative_layer_mask_add_execute :: "mode \<Rightarrow> mask_state \<Rightarrow> status \<times> mask_state" where
  "relative_layer_mask_add_execute m s =
     (let masking_layer =
            (case m of ABOVE \<Rightarrow> next_node (active_layer s)
                     | BELOW \<Rightarrow> prev_node (active_layer s))
      in case masking_layer of
           None \<Rightarrow> (CANCELLED, mask_report ''ERROR'' ''No layer found'' s)
         | Some (GreasePencilLayerGroup _) \<Rightarrow>
             (CANCELLED, mask_report ''ERROR'' ''No layer found'' s)
         | Some (GreasePencilLayer name) \<Rightarrow>
             if name \<in> set (mask_layers (active_layer s)) then
               (CANCELLED, mask_report ''ERROR'' ''Layer is already added as a mask'' s)
             else
               (let s1 = layer_mask_add name s
                in (FINISHED, s1\<lparr>active_layer := (active_layer s1)\<lparr>use_masks := True\<rparr>\<rparr>)))"

text \<open>The condition under which the claim expects a cancellation.\<close>

definition no_mask_to_add :: "mode \<Rightarrow> mask_state \<Rightarrow> bool" where
  "no_mask_to_add m s =
     (case (case m of ABOVE \<Rightarrow> next_node (active_layer s)
                    | BELOW \<Rightarrow> prev_node (active_layer s)) of
        None \<Rightarrow> True
      | Some (GreasePencilLayerGroup _) \<Rightarrow> True
      | Some (GreasePencilLayer name) \<Rightarrow> name \<in> set (mask_layers (active_layer s)))"


section \<open>The perspective warp (\<^verbatim>\<open>bl_operators/grease_pencil.py\<close>)\<close>

subsection \<open>Exact linear algebra\<close>

text \<open>
  Coordinates are floating-point numbers in the source: the solver works in 64-bit
  floats, matrices and vectors store and multiply 32-bit floats. The model computes
  with exact real numbers: it follows the arithmetic that the source writes down and
  leaves the rounding of binary floating point out. What is proved about
  \<open>compute_matrix\<close>, \<open>matmul\<close>, \<open>project\<close> and \<open>warp_points\<close> is therefore a
  statement in exact arithmetic. Whether a floating-point result equals a given number
  exactly (that solving for an unmoved box returns exactly the identity, say) depends
  on the rounding inside the solver and is not expressed here. Exceptions do not depend
  on rounding where the model uses them: a matrix with a zero column is singular in
  floating point as well.
\<close>

fun dot :: "real list \<Rightarrow> real list \<Rightarrow> real" where
  "dot (a # as) (x # xs) = a * x + dot as xs"
| "dot _ _ = 0"

text \<open>
  Modelled from the spec: the host-provided linear algebra solver
  (\<^verbatim>\<open>numpy.linalg.solve\<close>), which is not part of the source files. Its contract is
  to return the solution of a square system and to raise \<^verbatim>\<open>LinAlgError\<close> when the
  matrix is not square or is singular; in exact arithmetic that determines its result.
  \<open>linalg_solve\<close> meets the contract by Gaussian elimination on the equations
  \<open>(row, right-hand side)\<close>: \<open>find_pivot\<close> picks the first equation with a nonzero
  leading coefficient, \<open>eliminate\<close> removes the leading unknown from another equation,
  and \<open>gauss\<close> solves for the unknowns from the last to the first.
\<close>

type_synonym equation = "real list \<times> real"

fun find_pivot :: "equation list \<Rightarrow> (equation \<times> equation list) option" where
  "find_pivot [] = None"
| "find_pivot (e # es) =
     (if hd (fst e) \<noteq> 0 then Some (e, es)
      else case find_pivot es of
             None \<Rightarrow> None
           | Some (p, rest) \<Rightarrow> Some (p, e # rest))"

definition eliminate :: "equation \<Rightarrow> equation \<Rightarrow> equation" where
  "eliminate p e =
     (let c = hd (fst e) / hd (fst p)
      in (map (\<lambda>(a, b). a - c * b) (zip (tl (fst e)) (tl (fst p))), snd e - c * snd p))"

fun gauss :: "nat \<Rightarrow> equation list \<Rightarrow> real list option" where
  "gauss 0 eqs = Some []"
| "gauss (Suc n) eqs =
     (case find_pivot eqs of
        None \<Rightarrow> None
      | Some (p, rest) \<Rightarrow>
          (case gauss n (map (eliminate p) rest) of
             None \<Rightarrow> None
           | Some xs \<Rightarrow> Some ((snd p - dot (tl (fst p)) xs) / hd (fst p) # xs)))"

definition linalg_solve :: "real list list \<Rightarrow> real list \<Rightarrow> error + real list" where
  "linalg_solve A B =
     (if A = [] \<or> (\<exists>r \<in> set A. length r \<noteq> length A) then Inl LinAlgError
      else if length B \<noteq> length A then Inl ValueError
      else case gauss (length A) (zip A B) of
             None \<Rightarrow> Inl LinAlgError
           | Some X \<Rightarrow> Inr X)"

text \<open>A square matrix is nonsingular when only the zero vector is mapped to zero.\<close>

definition nonsingular :: "real list list \<Rightarrow> bool" where
  "nonsingular A =
     (\<forall>X. length X = length A \<and> (\<forall>r \<in> set A. dot r X = 0) \<longrightarrow> (\<forall>x \<in> set X. x = 0))"

subsection \<open>\<^verbatim>\<open>compute_matrix\<close>\<close>

text \<open>The loop over \<^verbatim>\<open>zip(src, dst)\<close> that fills \<^verbatim>\<open>A\<close> and \<^verbatim>\<open>B\<close>.\<close>

fun system_rows :: "(real \<times> real) list \<Rightarrow> (real \<times> real) list \<Rightarrow> real list list \<times> real list" where
  "system_rows ((x, y) # src) ((u, v) # dst) =
     (case system_rows src dst of
        (A, B) \<Rightarrow>
          ([x, y, 1, 0, 0, 0, - u * x, - u * y] # [0, 0, 0, x, y, 1, - v * x, - v * y] # A,
           u # v # B))"
| "system_rows _ _ = ([], [])"

type_synonym vector3 = "real \<times> real \<times> real"
type_synonym matrix3 = "vector3 \<times> vector3 \<times> vector3"

definition compute_matrix :: "(real \<times> real) list \<Rightarrow> (real \<times> real) list \<Rightarrow> error + matrix3" where
  "compute_matrix src dst =
     (case system_rows src dst of
        (A, B) \<Rightarrow>
          (case linalg_solve A B of
             Inl e \<Rightarrow> Inl e
           | Inr X \<Rightarrow>
               if length X < 8 then Inl IndexError
               else Inr ((X ! 0, X ! 1, X ! 2), (X ! 3, X ! 4, X ! 5), (X ! 6, X ! 7, 1))))"

text \<open>\<^verbatim>\<open>mat @ Vector((x, y, z))\<close>.\<close>

fun matmul :: "matrix3 \<Rightarrow> vector3 \<Rightarrow> vector3" where
  "matmul ((a, b, c), (d, e, f), (g, h, i)) (x, y, z) =
     (a * x + b * y + c * z, d * x + e * y + f * z, g * x + h * y + i * z)"

text \<open>Python's float division raises on a zero divisor.\<close>

definition py_div :: "real \<Rightarrow> real \<Rightarrow> error + real" where
  "py_div a b = (if b = 0 then Inl ZeroDivisionError else Inr (a / b))"

text \<open>The projection \<^verbatim>\<open>(vec.x / vec.z, vec.y / vec.z)\<close> of
  \<^verbatim>\<open>vec = mat @ Vector((x, y, 1.0))\<close>.\<close>

definition project :: "matrix3 \<Rightarrow> real \<times> real \<Rightarrow> error + real \<times> real" where
  "project mat xy =
     (case matmul mat (fst xy, snd xy, 1) of
        (vx, vy, vz) \<Rightarrow>
          (case py_div vx vz of
             Inl e \<Rightarrow> Inl e
           | Inr px \<Rightarrow> (case py_div vy vz of Inl e \<Rightarrow> Inl e | Inr py \<Rightarrow> Inr (px, py))))"


subsection \<open>Operator state\<close>

text \<open>
  A stroke point carries \<^verbatim>\<open>p.co\<close>; a stroke its \<^verbatim>\<open>points\<close>; a frame its strokes
  (\<^verbatim>\<open>frame.strokes\<close>); a layer its active frame (\<^verbatim>\<open>layer.frames.active\<close>, which
  may be \<^verbatim>\<open>None\<close>); grease pencil data its active layer (\<^verbatim>\<open>data.layers.active\<close>,
  which may be \<^verbatim>\<open>None\<close>) and the flag \<^verbatim>\<open>is_editable\<close>.

  \<open>active_object\<close> is \<^verbatim>\<open>context.active_object\<close>: \<^verbatim>\<open>None\<close>, a grease pencil
  object with its data, or an object of any other type. The data of such an object has
  no \<^verbatim>\<open>layers\<close> (the data of an empty is \<^verbatim>\<open>None\<close>), so \<^verbatim>\<open>obj.data.layers\<close>
  raises \<^verbatim>\<open>AttributeError\<close> on it. The active object is context: it changes when
  the user selects another object, for instance one of the handles, between two events.

  The handles are empty objects of \<^verbatim>\<open>bpy.data.objects\<close>, kept here by
  identity in \<open>data_objects\<close>; an object that has been removed is absent.
  \<open>handles\<close>, \<open>src_bbox\<close> and \<open>confirm\<close> are the operator attributes
  \<^verbatim>\<open>_handles\<close>, \<^verbatim>\<open>_src_bbox\<close> and \<^verbatim>\<open>_confirm\<close>.
\<close>

record point =
  co_x :: real
  co_y :: real
  co_z :: real

record gp_stroke =
  points :: "point list"

record gp_frame =
  frame_strokes :: "gp_stroke list"

record gp_layer =
  frames_active :: "gp_frame option"

record gp_data =
  layers_active :: "gp_layer option"
  is_editable :: bool

datatype context_object = GreasePencilObject gp_data | OtherObject

record bl_object =
  obj_name :: string
  empty_display_size :: real
  empty_display_type :: string
  location :: vector3

record warp_state =
  active_object :: "context_object option"
  data_objects :: "nat \<rightharpoonup> bl_object"
  collection_objects :: "nat list"
  next_object :: nat
  handles :: "nat list option"
  src_bbox :: "(real \<times> real) list option"
  confirm :: bool
  warp_reports :: "(string \<times> string) list"
  modal_handlers :: nat

text \<open>
  The three lines that open both \<^verbatim>\<open>invoke\<close> and \<^verbatim>\<open>finish\<close>:
  \<^verbatim>\<open>obj = context.active_object\<close>, \<^verbatim>\<open>layer = obj.data.layers.active\<close>,
  \<^verbatim>\<open>frame = layer.frames.active\<close>. An attribute read on \<^verbatim>\<open>None\<close>, or of
  \<^verbatim>\<open>layers\<close> on data without layers, raises \<^verbatim>\<open>AttributeError\<close>.
\<close>

definition context_frame :: "warp_state \<Rightarrow> error + gp_frame option" where
  "context_frame s =
     (case active_object s of
        None \<Rightarrow> Inl AttributeError
      | Some OtherObject \<Rightarrow> Inl AttributeError
      | Some (GreasePencilObject d) \<Rightarrow>
          (case layers_active d of
             None \<Rightarrow> Inl AttributeError
           | Some layer \<Rightarrow> Inr (frames_active layer)))"

text \<open>
  Writing through \<^verbatim>\<open>frame\<close>: the frame is the active frame of the active layer of
  the active object, and a change of its points is a change of that object's data.
\<close>

definition store_frame :: "gp_frame \<Rightarrow> warp_state \<Rightarrow> warp_state" where
  "store_frame frame s =
     (case active_object s of
        Some (GreasePencilObject d) \<Rightarrow>
          (case layers_active d of
             Some layer \<Rightarrow>
               s\<lparr>active_object := Some (GreasePencilObject
                    (d\<lparr>layers_active := Some (layer\<lparr>frames_active := Some frame\<rparr>)\<rparr>))\<rparr>
           | None \<Rightarrow> s)
      | _ \<Rightarrow> s)"

text \<open>\<^verbatim>\<open>poll\<close>: the host offers the operator, and calls \<^verbatim>\<open>invoke\<close>, only where it holds.\<close>

definition perspective_warp_poll :: "warp_state \<Rightarrow> bool" where
  "perspective_warp_poll s =
     (case active_object s of
        None \<Rightarrow> False
      | Some OtherObject \<Rightarrow> False
      | Some (GreasePencilObject d) \<Rightarrow> layers_active d \<noteq> None \<and> is_editable d)"

definition warp_report :: "string \<Rightarrow> string \<Rightarrow> warp_state \<Rightarrow> warp_state" where
  "warp_report level msg s = s\<lparr>warp_reports := warp_reports s @ [(level, msg)]\<rparr>"

text \<open>
  Modelled from the spec: the host's object services \<^verbatim>\<open>bpy.data.objects.new\<close>,
  \<^verbatim>\<open>collection.objects.link\<close> and \<^verbatim>\<open>bpy.data.objects.remove\<close>, which are not
  part of the source files. A new object gets an unused identity; removing an object
  deletes it and unlinks it; using a reference to a removed object raises
  \<^verbatim>\<open>ReferenceError\<close>.
\<close>

definition objects_new :: "string \<Rightarrow> warp_state \<Rightarrow> nat \<times> warp_state" where
  "objects_new name s =
     (next_object s,
      s\<lparr>data_objects := (data_objects s)(next_object s \<mapsto>
           \<lparr>obj_name = name, empty_display_size = 1, empty_display_type = ''PLAIN_AXES'',
            location = (0, 0, 0)\<rparr>),
        next_object := next_object s + 1\<rparr>)"

definition objects_link :: "nat \<Rightarrow> warp_state \<Rightarrow> warp_state" where
  "objects_link h s = s\<lparr>collection_objects := collection_objects s @ [h]\<rparr>"

definition objects_remove :: "nat \<Rightarrow> warp_state \<Rightarrow> error option \<times> warp_state" where
  "objects_remove h s =
     (case data_objects s h of
        None \<Rightarrow> (Some ReferenceError, s)
      | Some _ \<Rightarrow>
          (None, s\<lparr>data_objects := (data_objects s)(h := None),
                   collection_objects := removeAll h (collection_objects s)\<rparr>))"

text \<open>\<^verbatim>\<open>min(...)\<close> and \<^verbatim>\<open>max(...)\<close> of a generator: \<^verbatim>\<open>ValueError\<close> when it is empty.\<close>

fun py_min :: "real list \<Rightarrow> error + real" where
  "py_min [] = Inl ValueError"
| "py_min (x # xs) = Inr (fold min xs x)"

fun py_max :: "real list \<Rightarrow> error + real" where
  "py_max [] = Inl ValueError"
| "py_max (x # xs) = Inr (fold max xs x)"

subsection \<open>\<^verbatim>\<open>invoke\<close>\<close>

text \<open>The loop \<^verbatim>\<open>for co in self._src_bbox\<close> that creates one handle per corner.\<close>

fun add_handles :: "(real \<times> real) list \<Rightarrow> warp_state \<Rightarrow> warp_state" where
  "add_handles [] s = s"
| "add_handles (co # corners) s =
     (case objects_new ''WarpHandle'' s of
        (h, s1) \<Rightarrow>
          (let s2 = s1\<lparr>data_objects := (data_objects s1)(h :=
                         map_option (\<lambda>ob. ob\<lparr>empty_display_size := 1 / 10,
                                               empty_display_type := ''PLAIN_AXES'',
                                               location := (fst co, snd co, 0)\<rparr>)
                                    (data_objects s1 h))\<rparr>;
               s3 = objects_link h s2
           in add_handles corners (s3\<lparr>handles := map_option (\<lambda>hs. hs @ [h]) (handles s3)\<rparr>)))"

definition perspective_warp_invoke :: "warp_state \<Rightarrow> (error + status) \<times> warp_state" where
  "perspective_warp_invoke s =
     (case context_frame s of
        Inl e \<Rightarrow> (Inl e, s)
      | Inr None \<Rightarrow> (Inr CANCELLED, warp_report ''ERROR'' ''No stroke available'' s)
      | Inr (Some frame) \<Rightarrow>
          if length (frame_strokes frame) = 0 then
            (Inr CANCELLED, warp_report ''ERROR'' ''No stroke available'' s)
          else if length (frame_strokes frame) > 1 then
            (Inr CANCELLED, warp_report ''ERROR'' ''Only one stroke allowed per layer'' s)
          else
            (case frame_strokes frame of
               [] \<Rightarrow> (Inl IndexError, s)
             | stroke # _ \<Rightarrow>
                 (case py_min (map co_x (points stroke)) of Inl e \<Rightarrow> (Inl e, s) | Inr min_x \<Rightarrow>
                 (case py_max (map co_x (points stroke)) of Inl e \<Rightarrow> (Inl e, s) | Inr max_x \<Rightarrow>
                 (case py_min (map co_y (points stroke)) of Inl e \<Rightarrow> (Inl e, s) | Inr min_y \<Rightarrow>
                 (case py_max (map co_y (points stroke)) of Inl e \<Rightarrow> (Inl e, s) | Inr max_y \<Rightarrow>
                    (let bbox = [(min_x, min_y), (max_x, min_y), (max_x, max_y), (min_x, max_y)];
                         s1 = s\<lparr>src_bbox := Some bbox\<rparr>;
                         s2 = add_handles bbox (s1\<lparr>handles := Some []\<rparr>);
                         s3 = s2\<lparr>modal_handlers := modal_handlers s2 + 1\<rparr>
                     in (Inr RUNNING_MODAL,
                         warp_report ''INFO'' ''Move handles and press Enter to confirm'' s3))))))))"

subsection \<open>\<^verbatim>\<open>finish\<close> and \<^verbatim>\<open>modal\<close>\<close>

text \<open>\<^verbatim>\<open>[(h.location.x, h.location.y) for h in self._handles]\<close>.\<close>

fun handle_locations :: "(nat \<rightharpoonup> bl_object) \<Rightarrow> nat list \<Rightarrow> error + (real \<times> real) list" where
  "handle_locations objs [] = Inr []"
| "handle_locations objs (h # hs) =
     (case objs h of
        None \<Rightarrow> Inl ReferenceError
      | Some ob \<Rightarrow>
          (case handle_locations objs hs of
             Inl e \<Rightarrow> Inl e
           | Inr ls \<Rightarrow> Inr ((fst (location ob), fst (snd (location ob))) # ls)))"

text \<open>
  The loop \<^verbatim>\<open>for p in stroke.points\<close>. Points are updated in place, so when a
  division raises the points before it keep their new coordinates.
\<close>

fun warp_points :: "matrix3 \<Rightarrow> point list \<Rightarrow> error option \<times> point list" where
  "warp_points mat [] = (None, [])"
| "warp_points mat (p # ps) =
     (case project mat (co_x p, co_y p) of
        Inl e \<Rightarrow> (Some e, p # ps)
      | Inr (px, py) \<Rightarrow>
          (case warp_points mat ps of
             (r, ps') \<Rightarrow> (r, p\<lparr>co_x := px, co_y := py\<rparr> # ps')))"

text \<open>The loop \<^verbatim>\<open>for h in self._handles: bpy.data.objects.remove(h, do_unlink=True)\<close>.\<close>

fun remove_handles :: "nat list \<Rightarrow> warp_state \<Rightarrow> error option \<times> warp_state" where
  "remove_handles [] s = (None, s)"
| "remove_handles (h # hs) s =
     (case objects_remove h s of
        (Some e, s') \<Rightarrow> (Some e, s')
      | (None, s') \<Rightarrow> remove_handles hs s')"

text \<open>The part of \<^verbatim>\<open>finish\<close> after the \<^verbatim>\<open>if self._confirm\<close> block.\<close>

definition finish_cleanup :: "warp_state \<Rightarrow> (error + status) \<times> warp_state" where
  "finish_cleanup s =
     (case handles s of
        None \<Rightarrow> (Inl TypeError, s)
      | Some hs \<Rightarrow>
          (case remove_handles hs s of
             (Some e, s') \<Rightarrow> (Inl e, s')
           | (None, s') \<Rightarrow> (Inr FINISHED, s'\<lparr>handles := None\<rparr>)))"

definition perspective_warp_finish :: "warp_state \<Rightarrow> (error + status) \<times> warp_state" where
  "perspective_warp_finish s =
     (case context_frame s of
        Inl e \<Rightarrow> (Inl e, s)
      | Inr frame \<Rightarrow>
          if confirm s then
            (case handles s of None \<Rightarrow> (Inl TypeError, s) | Some hs \<Rightarrow>
            (case handle_locations (data_objects s) hs of Inl e \<Rightarrow> (Inl e, s) | Inr dst \<Rightarrow>
            (case src_bbox s of None \<Rightarrow> (Inl TypeError, s) | Some src \<Rightarrow>
            (case compute_matrix src dst of Inl e \<Rightarrow> (Inl e, s) | Inr mat \<Rightarrow>
            (case frame of None \<Rightarrow> (Inl AttributeError, s) | Some fr \<Rightarrow>
            (case frame_strokes fr of [] \<Rightarrow> (Inl IndexError, s) | stroke # rest \<Rightarrow>
            (case warp_points mat (points stroke) of
               (r, ps') \<Rightarrow>
                 (let s' = store_frame (fr\<lparr>frame_strokes := stroke\<lparr>points := ps'\<rparr> # rest\<rparr>) s
                  in case r of Some e \<Rightarrow> (Inl e, s') | None \<Rightarrow> finish_cleanup s'))))))))
          else finish_cleanup s)"

definition perspective_warp_modal :: "warp_state \<Rightarrow> event \<Rightarrow> (error + status) \<times> warp_state" where
  "perspective_warp_modal s e =
     (if ev_type e \<in> {''RET'', ''NUMPAD_ENTER''} then
        perspective_warp_finish (s\<lparr>confirm := True\<rparr>)
      else if ev_type e \<in> {''ESC''} then
        perspective_warp_finish (s\<lparr>confirm := False\<rparr>)
      else (Inr PASS_THROUGH, s))"

text \<open>The host's modal dispatch for this operator; an exception ends the loop too.\<close>

definition warp_modal_loop ::
  "warp_state \<Rightarrow> event list \<Rightarrow> (error + status) option \<times> warp_state" where
  "warp_modal_loop =
     modal_loop perspective_warp_modal (\<lambda>r. r = Inr RUNNING_MODAL \<or> r = Inr PASS_THROUGH)"

text \<open>All the given objects are gone from the data and from the collection.\<close>

definition handles_removed :: "nat list \<Rightarrow> warp_state \<Rightarrow> bool" where
  "handles_removed hs s =
     (\<forall>h \<in> set hs. data_objects s h = None \<and> h \<notin> set (collection_objects s))"


section \<open>Concrete inputs\<close>

text \<open>A source quad and a destination quad with three corners on one line.\<close>

definition unit_square :: "(real \<times> real) list" where
  "unit_square = [(0, 0), (1, 0), (1, 1), (0, 1)]"

definition collapsed_quad :: "(real \<times> real) list" where
  "collapsed_quad = [(- 1, 0), (5, 7), (2, 3), (1 / 2, 3 / 2)]"

text \<open>
  Scenes in which the grease pencil object is active and has an active layer: one
  without an active frame, one whose only stroke is a straight horizontal segment, one
  whose only stroke has no points yet, one with a two-point stroke and one with two
  strokes.
\<close>

definition scene :: "gp_frame option \<Rightarrow> warp_state" where
  "scene frame =
     \<lparr>active_object = Some (GreasePencilObject
        \<lparr>layers_active = Some \<lparr>frames_active = frame\<rparr>, is_editable = True\<rparr>),
      data_objects = Map.empty, collection_objects = [],
      next_object = 0, handles = None, src_bbox = None, confirm = False,
      warp_reports = [], modal_handlers = 0\<rparr>"

definition empty_scene :: warp_state where
  "empty_scene = scene None"

definition segment_scene :: warp_state where
  "segment_scene =
     scene (Some \<lparr>frame_strokes =
        [\<lparr>points = [\<lparr>co_x = 0, co_y = 0, co_z = 0\<rparr>, \<lparr>co_x = 1, co_y = 0, co_z = 0\<rparr>]\<rparr>]\<rparr>)"

definition pointless_scene :: warp_state where
  "pointless_scene = scene (Some \<lparr>frame_strokes = [\<lparr>points = []\<rparr>]\<rparr>)"

definition diagonal_scene :: warp_state where
  "diagonal_scene =
     scene (Some \<lparr>frame_strokes =
        [\<lparr>points = [\<lparr>co_x = 0, co_y = 0, co_z = 0\<rparr>, \<lparr>co_x = 2, co_y = 1, co_z = 5\<rparr>]\<rparr>]\<rparr>)"

definition crowded_scene :: warp_state where
  "crowded_scene =
     scene (Some \<lparr>frame_strokes =
        [\<lparr>points = [\<lparr>co_x = 0, co_y = 0, co_z = 0\<rparr>]\<rparr>, \<lparr>points = []\<rparr>]\<rparr>)"

text \<open>The warp invoked on the diagonal stroke, and then one of its handles selected.\<close>

definition handle_selected :: warp_state where
  "handle_selected =
     (snd (perspective_warp_invoke diagonal_scene))\<lparr>active_object := Some OtherObject\<rparr>"

text \<open>
  Drawing sessions: the operator just invoked; a stroke begun and undone with the
  button still held; a stroke drawn, released and then undone.
\<close>

definition started :: draw_state where
  "started = snd (ModalDrawOperator_invoke module_init)"

definition undone_mid_stroke :: draw_state where
  "undone_mid_stroke =
     snd (draw_modal_loop started [ev ''LEFTMOUSE'' ''PRESS'' 0 0, ev ''Z'' ''PRESS'' 0 0])"

definition one_undone :: draw_state where
  "one_undone =
     snd (draw_modal_loop started
       [ev ''LEFTMOUSE'' ''PRESS'' 0 0, ev ''MOUSEMOVE'' ''NOTHING'' 1 1,
        ev ''LEFTMOUSE'' ''RELEASE'' 1 1, ev ''Z'' ''PRESS'' 1 1])"

text \<open>A layer between a layer \<open>Ink\<close> above and a group \<open>Group\<close> below.\<close>

definition sample_layers :: mask_state where
  "sample_layers =
     \<lparr>active_layer = \<lparr>next_node = Some (GreasePencilLayer ''Ink''),
                       prev_node = Some (GreasePencilLayerGroup ''Group''),
                       mask_layers = [''Wash''], use_masks = False\<rparr>,
      mask_reports = []\<rparr>"


section \<open>Properties of the linear solver\<close>

lemma find_pivot_Some:
  "find_pivot eqs = Some (p, rest) \<Longrightarrow>
     hd (fst p) \<noteq> 0 \<and> set eqs = insert p (set rest) \<and> length eqs = Suc (length rest)"
  by (induction eqs arbitrary: p rest) (auto split: if_splits option.splits)

lemma find_pivot_None: "find_pivot eqs = None \<Longrightarrow> \<forall>e \<in> set eqs. hd (fst e) = 0"
  by (induction eqs) (auto split: if_splits option.splits)

lemma dot_Nil2 [simp]: "dot r [] = 0"
  by (cases r) simp_all

lemma dot_combine:
  "length as = length bs \<Longrightarrow>
     dot (map (\<lambda>(a, b). a - c * b) (zip as bs)) xs = dot as xs - c * dot bs xs"
proof (induction as bs arbitrary: xs rule: list_induct2)
  case Nil
  then show ?case by simp
next
  case (Cons a as b bs)
  then show ?case by (cases xs) (simp_all add: algebra_simps)
qed

lemma dot_hd_tl: "r \<noteq> [] \<Longrightarrow> dot r (x # xs) = hd r * x + dot (tl r) xs"
  by (cases r) simp_all

lemma dot_replicate_zero: "dot r (replicate n 0) = 0"
proof (induction r arbitrary: n)
  case Nil
  then show ?case by simp
next
  case (Cons a r)
  then show ?case by (cases n) simp_all
qed

lemma eliminate_fst_length:
  "length (fst e) = Suc n \<Longrightarrow> length (fst p) = Suc n \<Longrightarrow> length (fst (eliminate p e)) = n"
  by (simp add: eliminate_def Let_def)

lemma dot_eliminate:
  assumes "length (fst e) = Suc n" "length (fst p) = Suc n"
  shows "dot (fst (eliminate p e)) xs
           = dot (tl (fst e)) xs - hd (fst e) / hd (fst p) * dot (tl (fst p)) xs"
  unfolding eliminate_def Let_def fst_conv
  by (rule dot_combine) (simp add: assms)

lemma gauss_sound:
  "gauss n eqs = Some X \<Longrightarrow> \<forall>e \<in> set eqs. length (fst e) = n \<Longrightarrow> length eqs = n \<Longrightarrow>
     length X = n \<and> (\<forall>e \<in> set eqs. dot (fst e) X = snd e)"
proof (induction n arbitrary: eqs X)
  case 0
  then show ?case by simp
next
  case (Suc n)
  from Suc.prems(1) obtain p rest where piv: "find_pivot eqs = Some (p, rest)"
    by (auto split: option.splits)
  from Suc.prems(1) piv obtain xs where
    rec: "gauss n (map (eliminate p) rest) = Some xs" and
    X: "X = (snd p - dot (tl (fst p)) xs) / hd (fst p) # xs"
    by (auto split: option.splits)
  from find_pivot_Some [OF piv] have
    hp: "hd (fst p) \<noteq> 0" and mem: "set eqs = insert p (set rest)" and
    len: "length eqs = Suc (length rest)"
    by simp_all
  have lp: "length (fst p) = Suc n" using Suc.prems(2) mem by simp
  have lr: "\<forall>e \<in> set rest. length (fst e) = Suc n" using Suc.prems(2) mem by simp
  have "\<forall>e \<in> set (map (eliminate p) rest). length (fst e) = n"
    using lr lp by (auto simp: eliminate_fst_length)
  moreover have "length (map (eliminate p) rest) = n" using len Suc.prems(3) by simp
  ultimately have ih: "length xs = n"
      "\<forall>e \<in> set (map (eliminate p) rest). dot (fst e) xs = snd e"
    using Suc.IH [OF rec] by simp_all
  have pe: "dot (fst p) X = snd p"
  proof -
    have "fst p \<noteq> []" using lp by auto
    then show ?thesis using hp by (simp add: X dot_hd_tl)
  qed
  have re: "dot (fst e) X = snd e" if "e \<in> set rest" for e
  proof -
    have le: "length (fst e) = Suc n" using lr that by simp
    then have ne: "fst e \<noteq> []" by auto
    have "dot (fst (eliminate p e)) xs = snd (eliminate p e)" using ih(2) that by simp
    then have "dot (tl (fst e)) xs - hd (fst e) / hd (fst p) * dot (tl (fst p)) xs
                 = snd e - hd (fst e) / hd (fst p) * snd p"
      using dot_eliminate [OF le lp] by (simp add: eliminate_def Let_def)
    then show ?thesis using hp ne by (simp add: X dot_hd_tl field_simps)
  qed
  show ?case using ih(1) pe re mem by (auto simp: X)
qed

lemma gauss_None:
  "gauss n eqs = None \<Longrightarrow> \<forall>e \<in> set eqs. length (fst e) = n \<Longrightarrow> length eqs = n \<Longrightarrow>
     \<exists>X. length X = n \<and> (\<exists>x \<in> set X. x \<noteq> 0) \<and> (\<forall>e \<in> set eqs. dot (fst e) X = 0)"
proof (induction n arbitrary: eqs)
  case 0
  then show ?case by simp
next
  case (Suc n)
  show ?case
  proof (cases "find_pivot eqs")
    case None
    let ?X = "1 # replicate n (0::real)"
    have "dot (fst e) ?X = 0" if "e \<in> set eqs" for e
    proof -
      have "fst e \<noteq> []" using Suc.prems(2) that by auto
      moreover have "hd (fst e) = 0" using find_pivot_None [OF None] that by simp
      ultimately show ?thesis by (simp add: dot_hd_tl dot_replicate_zero)
    qed
    moreover have "length ?X = Suc n" by simp
    moreover have "\<exists>x \<in> set ?X. x \<noteq> 0" by simp
    ultimately show ?thesis by blast
  next
    case (Some pr)
    obtain p rest where pr: "pr = (p, rest)" by (cases pr)
    have piv: "find_pivot eqs = Some (p, rest)" using Some pr by simp
    from Suc.prems(1) piv have rec: "gauss n (map (eliminate p) rest) = None"
      by (auto split: option.splits)
    from find_pivot_Some [OF piv] have
      hp: "hd (fst p) \<noteq> 0" and mem: "set eqs = insert p (set rest)" and
      len: "length eqs = Suc (length rest)"
      by simp_all
    have lp: "length (fst p) = Suc n" using Suc.prems(2) mem by simp
    have lr: "\<forall>e \<in> set rest. length (fst e) = Suc n" using Suc.prems(2) mem by simp
    have "\<forall>e \<in> set (map (eliminate p) rest). length (fst e) = n"
      using lr lp by (auto simp: eliminate_fst_length)
    moreover have "length (map (eliminate p) rest) = n" using len Suc.prems(3) by simp
    ultimately obtain xs where xs: "length xs = n" "\<exists>x \<in> set xs. x \<noteq> 0"
        "\<forall>e \<in> set (map (eliminate p) rest). dot (fst e) xs = 0"
      using Suc.IH [OF rec] by blast
    let ?X = "(- dot (tl (fst p)) xs / hd (fst p)) # xs"
    have pe: "dot (fst p) ?X = 0"
    proof -
      have "fst p \<noteq> []" using lp by auto
      then show ?thesis using hp by (simp add: dot_hd_tl)
    qed
    have re: "dot (fst e) ?X = 0" if "e \<in> set rest" for e
    proof -
      have le: "length (fst e) = Suc n" using lr that by simp
      then have ne: "fst e \<noteq> []" by auto
      have "dot (fst (eliminate p e)) xs = 0" using xs(3) that by simp
      then have "dot (tl (fst e)) xs - hd (fst e) / hd (fst p) * dot (tl (fst p)) xs = 0"
        using dot_eliminate [OF le lp] by simp
      then show ?thesis using hp ne by (simp add: dot_hd_tl field_simps)
    qed
    have "length ?X = Suc n" using xs(1) by simp
    moreover have "\<exists>x \<in> set ?X. x \<noteq> 0" using xs(2) by auto
    moreover have "\<forall>e \<in> set eqs. dot (fst e) ?X = 0" using pe re mem by auto
    ultimately show ?thesis by blast
  qed
qed

lemma set_fst_zip: "length A = length B \<Longrightarrow> fst ` set (zip A B) = set A"
  by (induction A B rule: list_induct2) auto

lemma linalg_solve_Inr:
  assumes "linalg_solve A B = Inr X"
  shows "length X = length A \<and> (\<forall>i < length A. dot (A ! i) X = B ! i)"
proof -
  from assms have sq: "\<forall>r \<in> set A. length r = length A" and lB: "length B = length A"
    and g: "gauss (length A) (zip A B) = Some X"
    by (auto simp: linalg_solve_def split: if_splits option.splits)
  have "\<forall>e \<in> set (zip A B). length (fst e) = length A"
    using sq by (auto dest: set_zip_leftD)
  moreover have "length (zip A B) = length A" using lB by simp
  ultimately have r: "length X = length A" "\<forall>e \<in> set (zip A B). dot (fst e) X = snd e"
    using gauss_sound [OF g] by simp_all
  have "dot (A ! i) X = B ! i" if "i < length A" for i
  proof -
    have "(A ! i, B ! i) \<in> set (zip A B)"
      using that lB by (auto simp: set_zip)
    then show ?thesis using r(2) by fastforce
  qed
  then show ?thesis using r(1) by simp
qed

lemma linalg_solve_nonsingular:
  assumes "nonsingular A" "A \<noteq> []" "\<forall>r \<in> set A. length r = length A" "length B = length A"
  shows "\<exists>X. linalg_solve A B = Inr X"
proof (cases "gauss (length A) (zip A B)")
  case None
  have "\<forall>e \<in> set (zip A B). length (fst e) = length A"
    using assms(3) by (auto dest: set_zip_leftD)
  moreover have "length (zip A B) = length A" using assms(4) by simp
  ultimately obtain X where X: "length X = length A" "\<exists>x \<in> set X. x \<noteq> 0"
      "\<forall>e \<in> set (zip A B). dot (fst e) X = 0"
    using gauss_None [OF None] by blast
  have "\<forall>r \<in> set A. dot r X = 0"
    using X(3) set_fst_zip [of A B] assms(4) by force
  then show ?thesis using assms(1) X(1,2) unfolding nonsingular_def by blast
next
  case (Some X)
  then show ?thesis using assms(2-4) by (simp add: linalg_solve_def)
qed

lemma dot_all_zero: "\<forall>z \<in> set zs. z = 0 \<Longrightarrow> dot r zs = 0"
proof (induction r arbitrary: zs)
  case Nil
  then show ?case by simp
next
  case (Cons a r)
  then show ?case by (cases zs) simp_all
qed

lemma gauss_Some_kernel:
  "gauss n eqs = Some X \<Longrightarrow> \<forall>e \<in> set eqs. length (fst e) = n \<Longrightarrow> length eqs = n \<Longrightarrow>
   length Z = n \<Longrightarrow> \<forall>e \<in> set eqs. dot (fst e) Z = 0 \<Longrightarrow> \<forall>z \<in> set Z. z = 0"
proof (induction n arbitrary: eqs X Z)
  case 0
  then show ?case by simp
next
  case (Suc n)
  from Suc.prems(1) obtain p rest where piv: "find_pivot eqs = Some (p, rest)"
    by (auto split: option.splits)
  from Suc.prems(1) piv obtain xs where rec: "gauss n (map (eliminate p) rest) = Some xs"
    by (auto split: option.splits)
  from find_pivot_Some [OF piv] have
    hp: "hd (fst p) \<noteq> 0" and mem: "set eqs = insert p (set rest)" and
    len: "length eqs = Suc (length rest)"
    by simp_all
  have lp: "length (fst p) = Suc n" using Suc.prems(2) mem by simp
  have lr: "\<forall>e \<in> set rest. length (fst e) = Suc n" using Suc.prems(2) mem by simp
  obtain z0 zs where Z: "Z = z0 # zs" and lzs: "length zs = n"
    using Suc.prems(4) by (cases Z) auto
  have np: "fst p \<noteq> []" using lp by auto
  have "dot (fst p) Z = 0" using Suc.prems(5) mem by simp
  then have pz: "hd (fst p) * z0 + dot (tl (fst p)) zs = 0"
    using np by (simp add: Z dot_hd_tl)
  have wf: "\<forall>e \<in> set (map (eliminate p) rest). length (fst e) = n"
    using lr lp by (auto simp: eliminate_fst_length)
  have ln: "length (map (eliminate p) rest) = n" using len Suc.prems(3) by simp
  have ker: "\<forall>e \<in> set (map (eliminate p) rest). dot (fst e) zs = 0"
  proof
    fix e' assume "e' \<in> set (map (eliminate p) rest)"
    then obtain e where e: "e \<in> set rest" "e' = eliminate p e" by auto
    have le: "length (fst e) = Suc n" using lr e(1) by simp
    then have ne: "fst e \<noteq> []" by auto
    have "dot (fst e) Z = 0" using Suc.prems(5) mem e(1) by simp
    then have ez: "hd (fst e) * z0 + dot (tl (fst e)) zs = 0"
      using ne by (simp add: Z dot_hd_tl)
    have "dot (tl (fst e)) zs - hd (fst e) / hd (fst p) * dot (tl (fst p)) zs = 0"
    proof -
      have "dot (tl (fst p)) zs = - (hd (fst p) * z0)" using pz by linarith
      moreover have "dot (tl (fst e)) zs = - (hd (fst e) * z0)" using ez by linarith
      ultimately show ?thesis using hp by simp
    qed
    then show "dot (fst e') zs = 0" using dot_eliminate [OF le lp] e(2) by simp
  qed
  have zs0: "\<forall>z \<in> set zs. z = 0" using Suc.IH [OF rec wf ln lzs ker] .
  then have "dot (tl (fst p)) zs = 0" by (rule dot_all_zero)
  then have "z0 = 0" using pz hp by simp
  then show ?case using zs0 by (simp add: Z)
qed

lemma linalg_solve_Inr_nonsingular:
  assumes "linalg_solve A B = Inr X"
  shows "nonsingular A"
  unfolding nonsingular_def
proof (intro allI impI)
  fix Z
  assume h: "length Z = length A \<and> (\<forall>r \<in> set A. dot r Z = 0)"
  from assms have sq: "\<forall>r \<in> set A. length r = length A" and lB: "length B = length A"
    and g: "gauss (length A) (zip A B) = Some X"
    by (auto simp: linalg_solve_def split: if_splits option.splits)
  have "\<forall>e \<in> set (zip A B). length (fst e) = length A"
    using sq by (auto dest: set_zip_leftD)
  moreover have "length (zip A B) = length A" using lB by simp
  moreover have "\<forall>e \<in> set (zip A B). dot (fst e) Z = 0"
    using h by (auto dest: set_zip_leftD)
  ultimately show "\<forall>z \<in> set Z. z = 0"
    using gauss_Some_kernel [OF g] h by blast
qed

lemma linalg_solve_contract:
  assumes "A \<noteq> []" "\<forall>r \<in> set A. length r = length A" "length B = length A"
  shows "(nonsingular A \<longrightarrow>
            (\<exists>X. linalg_solve A B = Inr X \<and> length X = length A \<and>
                 (\<forall>i < length A. dot (A ! i) X = B ! i))) \<and>
         (\<not> nonsingular A \<longrightarrow> linalg_solve A B = Inl LinAlgError)"
proof (intro conjI impI)
  assume "nonsingular A"
  then obtain X where "linalg_solve A B = Inr X"
    using linalg_solve_nonsingular assms by blast
  then show "\<exists>X. linalg_solve A B = Inr X \<and> length X = length A \<and>
                 (\<forall>i < length A. dot (A ! i) X = B ! i)"
    using linalg_solve_Inr by blast
next
  assume ns: "\<not> nonsingular A"
  show "linalg_solve A B = Inl LinAlgError"
  proof (cases "linalg_solve A B")
    case (Inl e)
    then show ?thesis using assms
      by (auto simp: linalg_solve_def split: if_splits option.splits)
  next
    case (Inr X)
    then show ?thesis using linalg_solve_Inr_nonsingular ns by blast
  qed
qed

lemma system_rows_Cons:
  "system_rows (p # src) (q # dst) =
     (case system_rows src dst of
        (A, B) \<Rightarrow>
          ([fst p, snd p, 1, 0, 0, 0, - fst q * fst p, - fst q * snd p]
             # [0, 0, 0, fst p, snd p, 1, - snd q * fst p, - snd q * snd p] # A,
           fst q # snd q # B))"
  by (cases p; cases q) simp

lemma length_four: "length xs = 4 \<Longrightarrow> \<exists>a b c d. xs = [a, b, c, d]"
  by (auto simp: numeral_eq_Suc length_Suc_conv)

lemma length_eight: "length xs = 8 \<Longrightarrow> \<exists>a b c d e f g h. xs = [a, b, c, d, e, f, g, h]"
  by (auto simp: numeral_eq_Suc length_Suc_conv)

lemma project_of_scaled:
  assumes "matmul M (x, y, 1) = (u * wz, v * wz, wz)"
  shows "project M (x, y) = (if wz = 0 then Inl ZeroDivisionError else Inr (u, v))"
  using assms by (simp add: project_def py_div_def)

lemma less_four: "i < (4::nat) \<Longrightarrow> i = 0 \<or> i = 1 \<or> i = 2 \<or> i = 3"
  by arith

lemma compute_matrix_collapsed: "compute_matrix unit_square collapsed_quad = Inr ((1, 2, - 1), (0, 3, 0), (- 1, 1, 1))"
  by (simp add: compute_matrix_def unit_square_def collapsed_quad_def linalg_solve_def
      eliminate_def Let_def)

lemma nonsingular_collapsed: "nonsingular (fst (system_rows unit_square collapsed_quad))"
  unfolding nonsingular_def
proof (intro allI impI)
  fix X :: "real list"
  assume h: "length X = length (fst (system_rows unit_square collapsed_quad)) \<and>
             (\<forall>r \<in> set (fst (system_rows unit_square collapsed_quad)). dot r X = 0)"
  then have "length X = 8" by (simp add: unit_square_def collapsed_quad_def)
  then obtain a b c d e f g k where X: "X = [a, b, c, d, e, f, g, k]"
    using length_eight by blast
  from h show "\<forall>x \<in> set X. x = 0"
    unfolding X by (simp add: unit_square_def collapsed_quad_def)
qed


section \<open>Properties of the drawing demo\<close>

lemmas draw_defs = ModalDrawOperator_modal_def tag_redraw_def draw_handler_remove_def
  new_current_stroke_def undo_move_def redo_move_def StrokeUndo_execute_def StrokeRedo_execute_def

lemma started_eq: "started = module_init\<lparr>draw_handlers := [0], next_handle := 1, handle := 0\<rparr>"
  by (simp add: started_def ModalDrawOperator_invoke_def draw_handler_add_def module_init_def)

lemma undone_mid_stroke_fields:
  "current_stroke undone_mid_stroke = Some 1" "redo_stack undone_mid_stroke = [1]"
  "strokes undone_mid_stroke = []" "heap undone_mid_stroke (Suc 0) = []"
  by (simp_all add: undone_mid_stroke_def draw_modal_loop_def started_eq module_init_def
      draw_defs ev_def Let_def)

lemma one_undone_fields:
  "current_stroke one_undone = Some 2" "redo_stack one_undone = [1]"
  "strokes one_undone = []" "heap one_undone (Suc 0) = [(1, 1)]" "heap one_undone 2 = []"
  by (simp_all add: one_undone_def draw_modal_loop_def started_eq module_init_def
      draw_defs ev_def Let_def)


section \<open>Properties of the warp operator\<close>

lemma py_min_nonempty: "xs \<noteq> [] \<Longrightarrow> \<exists>m. py_min xs = Inr m"
  by (cases xs) simp_all

lemma py_max_nonempty: "xs \<noteq> [] \<Longrightarrow> \<exists>m. py_max xs = Inr m"
  by (cases xs) simp_all

lemma remove_handles_frame:
  "remove_handles hs s = (r, s') \<Longrightarrow>
     active_object s' = active_object s \<and> handles s' = handles s \<and> src_bbox s' = src_bbox s"
proof (induction hs arbitrary: s)
  case Nil
  then show ?case by simp
next
  case (Cons h hs)
  then show ?case
    by (cases "data_objects s h") (auto simp: objects_remove_def)
qed

lemma remove_handles_gone:
  "remove_handles hs s = (r, s') \<Longrightarrow>
     (data_objects s h = None \<longrightarrow> data_objects s' h = None) \<and>
     (h \<notin> set (collection_objects s) \<longrightarrow> h \<notin> set (collection_objects s'))"
proof (induction hs arbitrary: s)
  case Nil
  then show ?case by simp
next
  case (Cons k hs)
  show ?case
  proof (cases "data_objects s k")
    case None
    with Cons.prems show ?thesis by (simp add: objects_remove_def)
  next
    case (Some ob)
    let ?s1 = "s\<lparr>data_objects := (data_objects s)(k := None),
                   collection_objects := removeAll k (collection_objects s)\<rparr>"
    from Cons.prems Some have "remove_handles hs ?s1 = (r, s')"
      by (simp add: objects_remove_def)
    from Cons.IH [OF this] show ?thesis by auto
  qed
qed

lemma remove_handles_ok:
  "distinct hs \<Longrightarrow> \<forall>h \<in> set hs. data_objects s h \<noteq> None \<Longrightarrow>
     \<exists>s'. remove_handles hs s = (None, s') \<and> handles_removed hs s'"
proof (induction hs arbitrary: s)
  case Nil
  then show ?case by (simp add: handles_removed_def)
next
  case (Cons k hs)
  from Cons.prems obtain ob where ob: "data_objects s k = Some ob" by auto
  let ?s1 = "s\<lparr>data_objects := (data_objects s)(k := None),
                 collection_objects := removeAll k (collection_objects s)\<rparr>"
  have "\<forall>h \<in> set hs. data_objects ?s1 h \<noteq> None" using Cons.prems by auto
  moreover have "distinct hs" using Cons.prems by simp
  ultimately obtain s' where s': "remove_handles hs ?s1 = (None, s')" "handles_removed hs s'"
    using Cons.IH by blast
  have "data_objects s' k = None \<and> k \<notin> set (collection_objects s')"
    using remove_handles_gone [OF s'(1), of k] by simp
  then have "handles_removed (k # hs) s'" using s'(2) by (simp add: handles_removed_def)
  moreover have "remove_handles (k # hs) s = (None, s')"
    using ob s'(1) by (simp add: objects_remove_def)
  ultimately show ?case by blast
qed

lemma finish_cleanup_object: "active_object (snd (finish_cleanup s)) = active_object s"
proof (cases "handles s")
  case None
  then show ?thesis by (simp add: finish_cleanup_def)
next
  case (Some hs)
  obtain r s' where rs: "remove_handles hs s = (r, s')" by (cases "remove_handles hs s")
  from remove_handles_frame [OF rs] show ?thesis
    using Some rs by (cases r) (simp_all add: finish_cleanup_def)
qed

lemma finish_cleanup_ok:
  assumes "handles s = Some hs" "distinct hs" "\<forall>h \<in> set hs. data_objects s h \<noteq> None"
  shows "fst (finish_cleanup s) = Inr FINISHED \<and> handles_removed hs (snd (finish_cleanup s)) \<and>
         handles (snd (finish_cleanup s)) = None"
proof -
  obtain s' where s': "remove_handles hs s = (None, s')" "handles_removed hs s'"
    using remove_handles_ok [OF assms(2,3)] by blast
  then show ?thesis using assms(1) by (simp add: finish_cleanup_def handles_removed_def)
qed

lemma finish_cleanup_status:
  "fst (finish_cleanup s) = Inr st \<Longrightarrow> st = FINISHED"
  by (auto simp: finish_cleanup_def split: option.splits prod.splits)

lemma context_frame_cong: "active_object s' = active_object s \<Longrightarrow> context_frame s' = context_frame s"
  by (simp add: context_frame_def)

lemma context_frame_scene: "context_frame (scene frame) = Inr frame"
  by (simp add: context_frame_def scene_def)

lemma poll_scene: "perspective_warp_poll (scene frame)"
  by (simp add: perspective_warp_poll_def scene_def)

lemma poll_context_frame: "perspective_warp_poll s \<Longrightarrow> \<exists>frame. context_frame s = Inr frame"
  by (auto simp: perspective_warp_poll_def context_frame_def
      split: option.splits context_object.splits)

lemma add_handles_object: "active_object (add_handles corners s) = active_object s"
  by (induction corners arbitrary: s) (simp_all add: objects_new_def objects_link_def Let_def)

lemma invoke_object: "active_object (snd (perspective_warp_invoke s)) = active_object s"
  by (simp add: perspective_warp_invoke_def Let_def warp_report_def add_handles_object
      del: add_handles.simps split: sum.splits option.splits list.splits)

lemma invoke_context_frame:
  "context_frame (snd (perspective_warp_invoke s)) = context_frame s"
  by (rule context_frame_cong) (rule invoke_object)

lemmas invoke_defs = perspective_warp_invoke_def Let_def objects_new_def objects_link_def
  warp_report_def context_frame_scene

lemma segment_invoked:
  "fst (perspective_warp_invoke segment_scene) = Inr RUNNING_MODAL"
  "handles (snd (perspective_warp_invoke segment_scene)) = Some [0, 1, 2, 3]"
  "src_bbox (snd (perspective_warp_invoke segment_scene)) = Some [(0, 0), (1, 0), (1, 0), (0, 0)]"
  "handle_locations (data_objects (snd (perspective_warp_invoke segment_scene))) [0, 1, 2, 3]
     = Inr [(0, 0), (1, 0), (1, 0), (0, 0)]"
  "map (\<lambda>h. data_objects (snd (perspective_warp_invoke segment_scene)) h = None) [0, 1, 2, 3]
     = [False, False, False, False]"
  "collection_objects (snd (perspective_warp_invoke segment_scene)) = [0, 1, 2, 3]"
  by (simp_all add: segment_scene_def invoke_defs) (simp_all add: scene_def)

lemma diagonal_invoked:
  "fst (perspective_warp_invoke diagonal_scene) = Inr RUNNING_MODAL"
  "handles (snd (perspective_warp_invoke diagonal_scene)) = Some [0, 1, 2, 3]"
  "src_bbox (snd (perspective_warp_invoke diagonal_scene)) = Some [(0, 0), (2, 0), (2, 1), (0, 1)]"
  "handle_locations (data_objects (snd (perspective_warp_invoke diagonal_scene))) [0, 1, 2, 3]
     = Inr [(0, 0), (2, 0), (2, 1), (0, 1)]"
  "\<forall>h \<in> set [0, 1, 2, 3]. data_objects (snd (perspective_warp_invoke diagonal_scene)) h \<noteq> None"
  by (simp_all add: diagonal_scene_def invoke_defs) (simp_all add: scene_def)

lemma segment_context:
  "context_frame ((snd (perspective_warp_invoke segment_scene))\<lparr>confirm := True\<rparr>)
     = Inr (Some \<lparr>frame_strokes =
         [\<lparr>points = [\<lparr>co_x = 0, co_y = 0, co_z = 0\<rparr>, \<lparr>co_x = 1, co_y = 0, co_z = 0\<rparr>]\<rparr>]\<rparr>)"
proof -
  have "context_frame ((snd (perspective_warp_invoke segment_scene))\<lparr>confirm := True\<rparr>)
          = context_frame segment_scene"
    by (rule context_frame_cong) (simp add: invoke_object)
  then show ?thesis by (simp add: segment_scene_def context_frame_scene)
qed

lemma singular_segment:
  "compute_matrix [(0, 0), (1, 0), (1, 0), (0, 0)] [(0, 0), (1, 0), (1, 0), (0, 0)] = Inl LinAlgError"
  by (simp add: compute_matrix_def linalg_solve_def eliminate_def Let_def)

lemma finish_confirm_error:
  "context_frame s = Inr frame \<Longrightarrow> confirm s \<Longrightarrow> handles s = Some hs \<Longrightarrow>
   handle_locations (data_objects s) hs = Inr dst \<Longrightarrow>
   src_bbox s = Some src \<Longrightarrow> compute_matrix src dst = Inl e \<Longrightarrow>
     perspective_warp_finish s = (Inl e, s)"
  by (simp add: perspective_warp_finish_def)

lemma modal_confirm:
  "ev_type e \<in> {''RET'', ''NUMPAD_ENTER''} \<Longrightarrow>
     perspective_warp_modal s e = perspective_warp_finish (s\<lparr>confirm := True\<rparr>)"
  by (simp add: perspective_warp_modal_def)

lemma modal_cancel:
  "ev_type e = ''ESC'' \<Longrightarrow>
     perspective_warp_modal s e =
       (case context_frame s of
          Inl err \<Rightarrow> (Inl err, s\<lparr>confirm := False\<rparr>)
        | Inr frame \<Rightarrow> finish_cleanup (s\<lparr>confirm := False\<rparr>))"
  by (simp add: perspective_warp_modal_def perspective_warp_finish_def
      context_frame_cong [of "s\<lparr>confirm := False\<rparr>" s] split: sum.splits)

lemma context_frame_error: "context_frame s = Inl err \<Longrightarrow> err = AttributeError"
  by (auto simp: context_frame_def split: option.splits context_object.splits)

section \<open>The claims\<close>

text \<open>
  C1. For 4-point lists \<open>src\<close> and \<open>dst\<close> whose 8x8 system is nonsingular,
  \<open>compute_matrix\<close> returns a matrix \<open>M\<close>, and for every \<open>i\<close> in 0..3 the vector
  \<open>w = M @ (src[i].x, src[i].y, 1)\<close> satisfies \<open>w.x = dst[i].x * w.z\<close> and
  \<open>w.y = dst[i].y * w.z\<close>. Hence \<open>w.x / w.z = dst[i].x\<close> and \<open>w.y / w.z = dst[i].y\<close>
  whenever \<open>w.z\<close> is not zero; when \<open>w.z\<close> is zero the division raises.
\<close>

theorem compute_matrix_maps:
  assumes "length src = 4" "length dst = 4" "nonsingular (fst (system_rows src dst))"
  shows "\<exists>M. compute_matrix src dst = Inr M \<and>
           (\<forall>i < 4. \<exists>wz. matmul M (fst (src ! i), snd (src ! i), 1)
                           = (fst (dst ! i) * wz, snd (dst ! i) * wz, wz) \<and>
                         project M (src ! i)
                           = (if wz = 0 then Inl ZeroDivisionError else Inr (dst ! i)))"
proof -
  obtain p0 p1 p2 p3 where src: "src = [p0, p1, p2, p3]"
    using length_four [OF assms(1)] by blast
  obtain q0 q1 q2 q3 where dst: "dst = [q0, q1, q2, q3]"
    using length_four [OF assms(2)] by blast
  obtain A B where AB: "system_rows src dst = (A, B)" by (cases "system_rows src dst")
  have A: "A = fst (system_rows src dst)" and B: "B = snd (system_rows src dst)"
    using AB by simp_all
  have lA: "length A = 8" and lB: "length B = 8" and sq: "\<forall>r \<in> set A. length r = length A"
    unfolding A B src dst by (simp_all add: system_rows_Cons)
  have "A \<noteq> []" using lA by auto
  then obtain X where X: "linalg_solve A B = Inr X"
    using linalg_solve_nonsingular [of A B] assms(3) sq lA lB A by auto
  from linalg_solve_Inr [OF X] have lX: "length X = 8"
    and rows: "\<forall>i < 8. dot (A ! i) X = B ! i"
    using lA by simp_all
  obtain a b c d e f g h where Xs: "X = [a, b, c, d, e, f, g, h]"
    using length_eight [OF lX] by blast
  let ?M = "((a, b, c), (d, e, f), (g, h, 1::real))"
  have cm: "compute_matrix src dst = Inr ?M"
    using AB X by (simp add: compute_matrix_def Xs)
  have pt: "\<exists>wz. matmul ?M (fst (src ! i), snd (src ! i), 1)
                   = (fst (dst ! i) * wz, snd (dst ! i) * wz, wz) \<and>
                 project ?M (src ! i)
                   = (if wz = 0 then Inl ZeroDivisionError else Inr (dst ! i))"
    if i: "i < 4" for i
  proof -
    let ?x = "fst (src ! i)" and ?y = "snd (src ! i)"
    let ?u = "fst (dst ! i)" and ?v = "snd (dst ! i)"
    let ?wz = "g * ?x + h * ?y + 1"
    have r1: "dot (A ! (2 * i)) X = B ! (2 * i)" and r2: "dot (A ! (2 * i + 1)) X = B ! (2 * i + 1)"
      using rows i by simp_all
    have e1: "a * ?x + b * ?y + c = ?u * ?wz" and e2: "d * ?x + e * ?y + f = ?v * ?wz"
      using r1 r2 less_four [OF i] unfolding A B src dst Xs
      by (auto simp: system_rows_Cons algebra_simps)
    have mm: "matmul ?M (?x, ?y, 1) = (?u * ?wz, ?v * ?wz, ?wz)"
      using e1 e2 by (simp add: algebra_simps)
    from project_of_scaled [OF mm] show ?thesis using mm by auto
  qed
  show ?thesis using cm pt by blast
qed

text \<open>
  The theorem at the unit square and a destination quad with a nonsingular system.
\<close>

theorem compute_matrix_maps_witness:
  "length unit_square = 4 \<and> length collapsed_quad = 4 \<and>
   nonsingular (fst (system_rows unit_square collapsed_quad)) \<and>
   (\<exists>M. compute_matrix unit_square collapsed_quad = Inr M \<and>
      (\<forall>i < 4. \<exists>wz. matmul M (fst (unit_square ! i), snd (unit_square ! i), 1)
                      = (fst (collapsed_quad ! i) * wz, snd (collapsed_quad ! i) * wz, wz) \<and>
                    project M (unit_square ! i)
                      = (if wz = 0 then Inl ZeroDivisionError else Inr (collapsed_quad ! i))))"
proof -
  have l: "length unit_square = 4" "length collapsed_quad = 4"
    by (simp_all add: unit_square_def collapsed_quad_def)
  from compute_matrix_maps [OF l nonsingular_collapsed] l nonsingular_collapsed
  show ?thesis by blast
qed

text \<open>
  C1 as stated fails: for the unit square and the destination quad
  \<open>(-1, 0), (5, 7), (2, 3), (1/2, 3/2)\<close> the system is nonsingular, yet the solved
  matrix sends the second source corner to the zero vector, so \<open>w.x / w.z\<close> raises
  instead of giving 5.
\<close>

theorem compute_matrix_zero_divisor:
  "length unit_square = 4 \<and> length collapsed_quad = 4 \<and>
   nonsingular (fst (system_rows unit_square collapsed_quad)) \<and>
   compute_matrix unit_square collapsed_quad = Inr ((1, 2, - 1), (0, 3, 0), (- 1, 1, 1)) \<and>
   matmul ((1, 2, - 1), (0, 3, 0), (- 1, 1, 1)) (fst (unit_square ! 1), snd (unit_square ! 1), 1)
     = (0, 0, 0) \<and>
   project ((1, 2, - 1), (0, 3, 0), (- 1, 1, 1)) (unit_square ! 1) = Inl ZeroDivisionError \<and>
   project ((1, 2, - 1), (0, 3, 0), (- 1, 1, 1)) (unit_square ! 1) \<noteq> Inr (collapsed_quad ! 1)"
proof -
  have "length unit_square = 4" "length collapsed_quad = 4"
    by (simp_all add: unit_square_def collapsed_quad_def)
  moreover have "matmul ((1, 2, - 1), (0, 3, 0), (- 1, 1, 1))
                   (fst (unit_square ! 1), snd (unit_square ! 1), 1) = (0, 0, 0)"
    by (simp add: unit_square_def)
  moreover have "project ((1, 2, - 1), (0, 3, 0), (- 1, 1, 1)) (unit_square ! 1)
                   = Inl ZeroDivisionError"
    by (simp add: unit_square_def project_def py_div_def)
  ultimately show ?thesis
    using nonsingular_collapsed compute_matrix_collapsed by simp
qed

text \<open>
  C2. In every state, a modal step on \<open>LEFTMOUSE\<close> with value \<open>PRESS\<close> leaves
  \<open>redo_stack\<close> empty. Any other step that turns a non-empty \<open>redo_stack\<close> into an
  empty one is a \<open>Y\<close> press popping its last entry onto \<open>strokes\<close>; a \<open>Z\<close> press
  only pushes onto it, and every remaining event leaves it as it was. The statement
  holds for all states, so in particular for the reachable ones.
\<close>

theorem press_clears_redo:
  "(ev_type e = ''LEFTMOUSE'' \<and> ev_value e = ''PRESS'' \<longrightarrow>
      redo_stack (snd (ModalDrawOperator_modal s e)) = []) \<and>
   (\<not> (ev_type e = ''LEFTMOUSE'' \<and> ev_value e = ''PRESS'') \<and>
    redo_stack s \<noteq> [] \<and> redo_stack (snd (ModalDrawOperator_modal s e)) = [] \<longrightarrow>
      ev_type e = ''Y'' \<and> ev_value e = ''PRESS'' \<and>
      strokes (snd (ModalDrawOperator_modal s e)) = strokes s @ redo_stack s) \<and>
   (ev_type e = ''Z'' \<and> ev_value e = ''PRESS'' \<longrightarrow>
      redo_stack (snd (ModalDrawOperator_modal s e))
        = (if strokes s = [] then redo_stack s else redo_stack s @ [last (strokes s)])) \<and>
   (ev_type e = ''Y'' \<and> ev_value e = ''PRESS'' \<longrightarrow>
      redo_stack (snd (ModalDrawOperator_modal s e)) = butlast (redo_stack s)) \<and>
   (\<not> (ev_type e = ''LEFTMOUSE'' \<and> ev_value e = ''PRESS'') \<and>
    \<not> (ev_type e = ''Z'' \<and> ev_value e = ''PRESS'') \<and>
    \<not> (ev_type e = ''Y'' \<and> ev_value e = ''PRESS'') \<longrightarrow>
      redo_stack (snd (ModalDrawOperator_modal s e)) = redo_stack s)"
proof (intro conjI impI)
  assume "ev_type e = ''LEFTMOUSE'' \<and> ev_value e = ''PRESS''"
  then show "redo_stack (snd (ModalDrawOperator_modal s e)) = []"
    by (simp add: draw_defs Let_def)
next
  assume h: "\<not> (ev_type e = ''LEFTMOUSE'' \<and> ev_value e = ''PRESS'') \<and>
    redo_stack s \<noteq> [] \<and> redo_stack (snd (ModalDrawOperator_modal s e)) = []"
  then have y: "ev_type e = ''Y'' \<and> ev_value e = ''PRESS''"
    by (auto simp: draw_defs Let_def split: if_splits option.splits)
  then have "redo_stack (snd (ModalDrawOperator_modal s e)) = butlast (redo_stack s)"
    by (simp add: draw_defs Let_def)
  with h have "butlast (redo_stack s) = []" by simp
  with h have one: "redo_stack s = [last (redo_stack s)]"
    by (metis append_butlast_last_id append_Nil)
  from y h have "strokes (snd (ModalDrawOperator_modal s e)) = strokes s @ [last (redo_stack s)]"
    by (simp add: draw_defs Let_def)
  with one have "strokes (snd (ModalDrawOperator_modal s e)) = strokes s @ redo_stack s"
    by simp
  with y show "ev_type e = ''Y''" "ev_value e = ''PRESS''"
    "strokes (snd (ModalDrawOperator_modal s e)) = strokes s @ redo_stack s"
    by simp_all
next
  assume "ev_type e = ''Z'' \<and> ev_value e = ''PRESS''"
  then show "redo_stack (snd (ModalDrawOperator_modal s e))
        = (if strokes s = [] then redo_stack s else redo_stack s @ [last (strokes s)])"
    by (simp add: draw_defs Let_def)
next
  assume "ev_type e = ''Y'' \<and> ev_value e = ''PRESS''"
  then show "redo_stack (snd (ModalDrawOperator_modal s e)) = butlast (redo_stack s)"
    by (simp add: draw_defs Let_def)
next
  assume "\<not> (ev_type e = ''LEFTMOUSE'' \<and> ev_value e = ''PRESS'') \<and>
    \<not> (ev_type e = ''Z'' \<and> ev_value e = ''PRESS'') \<and>
    \<not> (ev_type e = ''Y'' \<and> ev_value e = ''PRESS'')"
  then show "redo_stack (snd (ModalDrawOperator_modal s e)) = redo_stack s"
    by (auto simp: draw_defs Let_def split: option.splits)
qed

text \<open>
  The theorem after one stroke has been drawn and undone.
\<close>

theorem press_clears_redo_witness:
  "redo_stack one_undone = [1] \<and>
   redo_stack (snd (ModalDrawOperator_modal one_undone (ev ''LEFTMOUSE'' ''PRESS'' 3 4))) = [] \<and>
   redo_stack (snd (ModalDrawOperator_modal one_undone (ev ''Y'' ''PRESS'' 3 4))) = [] \<and>
   strokes (snd (ModalDrawOperator_modal one_undone (ev ''Y'' ''PRESS'' 3 4))) = [1] \<and>
   redo_stack (snd (ModalDrawOperator_modal one_undone (ev ''MOUSEMOVE'' ''NOTHING'' 3 4))) = [1]"
  using press_clears_redo [of "ev ''LEFTMOUSE'' ''PRESS'' 3 4" one_undone]
    press_clears_redo [of "ev ''Y'' ''PRESS'' 3 4" one_undone]
    press_clears_redo [of "ev ''MOUSEMOVE'' ''NOTHING'' 3 4" one_undone]
  by (simp add: one_undone_fields ev_def)

text \<open>
  C3. When \<open>strokes\<close> is non-empty, \<open>StrokeUndo.execute\<close> followed by
  \<open>StrokeRedo.execute\<close> restores the whole state, both lists included, up to the two
  redraw requests; likewise redo followed by undo when \<open>redo_stack\<close> is non-empty.
\<close>

theorem undo_redo_identity:
  "(strokes s \<noteq> [] \<longrightarrow>
      fst (StrokeUndo_execute s) = FINISHED \<and>
      StrokeRedo_execute (snd (StrokeUndo_execute s))
        = (FINISHED, s\<lparr>redraw_tags := redraw_tags s + 2\<rparr>)) \<and>
   (redo_stack s \<noteq> [] \<longrightarrow>
      fst (StrokeRedo_execute s) = FINISHED \<and>
      StrokeUndo_execute (snd (StrokeRedo_execute s))
        = (FINISHED, s\<lparr>redraw_tags := redraw_tags s + 2\<rparr>))"
  by (simp add: draw_defs)

text \<open>
  The theorem at a state with one undone stroke, in both directions.
\<close>

theorem undo_redo_identity_witness:
  "strokes (snd (StrokeRedo_execute one_undone)) = [1] \<and>
   StrokeUndo_execute (snd (StrokeRedo_execute one_undone))
     = (FINISHED, one_undone\<lparr>redraw_tags := redraw_tags one_undone + 2\<rparr>) \<and>
   StrokeRedo_execute (snd (StrokeUndo_execute (snd (StrokeRedo_execute one_undone))))
     = (FINISHED, snd (StrokeRedo_execute one_undone)
                    \<lparr>redraw_tags := redraw_tags (snd (StrokeRedo_execute one_undone)) + 2\<rparr>)"
proof -
  have a: "redo_stack one_undone \<noteq> []" by (simp add: one_undone_fields)
  have s: "strokes (snd (StrokeRedo_execute one_undone)) = [1]"
    by (simp add: draw_defs one_undone_fields)
  then have b: "strokes (snd (StrokeRedo_execute one_undone)) \<noteq> []" by simp
  from undo_redo_identity [of one_undone] undo_redo_identity [of "snd (StrokeRedo_execute one_undone)"]
    a b s
  show ?thesis by blast
qed

text \<open>
  C4. \<open>invoke\<close> returns \<open>CANCELLED\<close> exactly when the active frame is \<open>None\<close> or
  does not hold exactly one stroke: with the report \<open>No stroke available\<close> when the frame
  is \<open>None\<close> or has no stroke, and \<open>Only one stroke allowed per layer\<close> when it has more
  than one. For a frame with exactly one stroke that has at least one point it returns
  \<open>RUNNING_MODAL\<close>. The active frame is the one \<open>invoke\<close> reads from the context,
  \<open>context_frame\<close>.
\<close>

theorem invoke_preconditions:
  "(fst (perspective_warp_invoke s) = Inr CANCELLED) =
     (context_frame s = Inr None \<or>
      (\<exists>frame. context_frame s = Inr (Some frame) \<and> length (frame_strokes frame) \<noteq> 1)) \<and>
   (context_frame s = Inr None \<or>
    (\<exists>frame. context_frame s = Inr (Some frame) \<and> frame_strokes frame = []) \<longrightarrow>
      perspective_warp_invoke s = (Inr CANCELLED, warp_report ''ERROR'' ''No stroke available'' s)) \<and>
   ((\<exists>frame. context_frame s = Inr (Some frame) \<and> length (frame_strokes frame) > 1) \<longrightarrow>
      perspective_warp_invoke s
        = (Inr CANCELLED, warp_report ''ERROR'' ''Only one stroke allowed per layer'' s)) \<and>
   ((\<exists>frame stroke. context_frame s = Inr (Some frame) \<and> frame_strokes frame = [stroke] \<and>
        points stroke \<noteq> []) \<longrightarrow>
      fst (perspective_warp_invoke s) = Inr RUNNING_MODAL)"
proof (intro conjI impI)
  show "(fst (perspective_warp_invoke s) = Inr CANCELLED) =
     (context_frame s = Inr None \<or>
      (\<exists>frame. context_frame s = Inr (Some frame) \<and> length (frame_strokes frame) \<noteq> 1))"
    by (auto simp: perspective_warp_invoke_def Let_def split: option.splits list.splits sum.splits)
next
  assume "context_frame s = Inr None \<or>
    (\<exists>frame. context_frame s = Inr (Some frame) \<and> frame_strokes frame = [])"
  then show "perspective_warp_invoke s = (Inr CANCELLED, warp_report ''ERROR'' ''No stroke available'' s)"
    by (auto simp: perspective_warp_invoke_def)
next
  assume "\<exists>frame. context_frame s = Inr (Some frame) \<and> length (frame_strokes frame) > 1"
  then show "perspective_warp_invoke s
        = (Inr CANCELLED, warp_report ''ERROR'' ''Only one stroke allowed per layer'' s)"
    by (auto simp: perspective_warp_invoke_def)
next
  assume "\<exists>frame stroke. context_frame s = Inr (Some frame) \<and> frame_strokes frame = [stroke] \<and>
        points stroke \<noteq> []"
  then obtain frame stroke where f: "context_frame s = Inr (Some frame)"
    "frame_strokes frame = [stroke]" "points stroke \<noteq> []" by blast
  obtain a b c d where "py_min (map co_x (points stroke)) = Inr a"
    "py_max (map co_x (points stroke)) = Inr b" "py_min (map co_y (points stroke)) = Inr c"
    "py_max (map co_y (points stroke)) = Inr d"
    using py_min_nonempty [of "map co_x (points stroke)"] py_max_nonempty [of "map co_x (points stroke)"]
      py_min_nonempty [of "map co_y (points stroke)"] py_max_nonempty [of "map co_y (points stroke)"] f(3)
    by auto
  then show "fst (perspective_warp_invoke s) = Inr RUNNING_MODAL"
    using f by (simp add: perspective_warp_invoke_def Let_def)
qed

text \<open>
  The theorem at a scene without a frame, one with two strokes and one with a single
  two-point stroke.
\<close>

theorem invoke_preconditions_witness:
  "perspective_warp_invoke empty_scene
     = (Inr CANCELLED, warp_report ''ERROR'' ''No stroke available'' empty_scene) \<and>
   perspective_warp_invoke crowded_scene
     = (Inr CANCELLED, warp_report ''ERROR'' ''Only one stroke allowed per layer'' crowded_scene) \<and>
   fst (perspective_warp_invoke diagonal_scene) = Inr RUNNING_MODAL"
proof -
  have a: "context_frame empty_scene = Inr None \<or>
           (\<exists>frame. context_frame empty_scene = Inr (Some frame) \<and> frame_strokes frame = [])"
    by (simp add: empty_scene_def context_frame_scene)
  have b: "\<exists>frame. context_frame crowded_scene = Inr (Some frame) \<and>
             length (frame_strokes frame) > 1"
    by (simp add: crowded_scene_def context_frame_scene)
  have c: "\<exists>frame stroke. context_frame diagonal_scene = Inr (Some frame) \<and>
             frame_strokes frame = [stroke] \<and> points stroke \<noteq> []"
    by (simp add: diagonal_scene_def context_frame_scene)
  from invoke_preconditions [of empty_scene] invoke_preconditions [of crowded_scene]
    invoke_preconditions [of diagonal_scene] a b c
  show ?thesis by blast
qed

text \<open>
  C4 as stated fails: for a frame whose only stroke has no points, \<open>min\<close> of the
  empty sequence raises \<open>ValueError\<close>, so \<open>invoke\<close> does not return
  \<open>RUNNING_MODAL\<close>. \<open>poll\<close> holds in that scene.
\<close>

theorem invoke_pointless_stroke_raises:
  "perspective_warp_poll pointless_scene \<and>
   context_frame pointless_scene = Inr (Some \<lparr>frame_strokes = [\<lparr>points = []\<rparr>]\<rparr>) \<and>
   length (frame_strokes \<lparr>frame_strokes = [\<lparr>points = []\<rparr>]\<rparr>) = 1 \<and>
   perspective_warp_invoke pointless_scene = (Inl ValueError, pointless_scene) \<and>
   fst (perspective_warp_invoke pointless_scene) \<noteq> Inr RUNNING_MODAL"
  by (simp add: pointless_scene_def poll_scene context_frame_scene perspective_warp_invoke_def)

text \<open>
  C5. \<open>execute\<close> returns \<open>CANCELLED\<close> with an error report and leaves the mask
  list and \<open>use_masks\<close> unchanged exactly when the neighbour in the requested direction
  is missing, is not a layer, or is already named in the mask list; otherwise it adds
  that layer's name to the mask list, sets \<open>use_masks\<close> and returns \<open>FINISHED\<close>.
\<close>

theorem mask_add_cancels_exactly:
  "((fst (relative_layer_mask_add_execute m s) = CANCELLED \<and>
     (\<exists>msg. mask_reports (snd (relative_layer_mask_add_execute m s))
               = mask_reports s @ [(''ERROR'', msg)]) \<and>
     mask_layers (active_layer (snd (relative_layer_mask_add_execute m s)))
       = mask_layers (active_layer s) \<and>
     use_masks (active_layer (snd (relative_layer_mask_add_execute m s)))
       = use_masks (active_layer s))
    = no_mask_to_add m s) \<and>
   (no_mask_to_add m s \<longrightarrow>
      fst (relative_layer_mask_add_execute m s) = CANCELLED \<and>
      active_layer (snd (relative_layer_mask_add_execute m s)) = active_layer s) \<and>
   (\<not> no_mask_to_add m s \<longrightarrow>
      fst (relative_layer_mask_add_execute m s) = FINISHED \<and>
      (\<exists>name. (case m of ABOVE \<Rightarrow> next_node (active_layer s)
                        | BELOW \<Rightarrow> prev_node (active_layer s)) = Some (GreasePencilLayer name) \<and>
         mask_layers (active_layer (snd (relative_layer_mask_add_execute m s)))
           = mask_layers (active_layer s) @ [name]) \<and>
      use_masks (active_layer (snd (relative_layer_mask_add_execute m s))) = True \<and>
      mask_reports (snd (relative_layer_mask_add_execute m s)) = mask_reports s)"
  by (auto simp: relative_layer_mask_add_execute_def no_mask_to_add_def mask_report_def
      layer_mask_add_def split: mode.splits option.splits tree_node.splits)

text \<open>
  The theorem for a layer with a group below and an unmasked layer above.
\<close>

theorem mask_add_cancels_exactly_witness:
  "fst (relative_layer_mask_add_execute BELOW sample_layers) = CANCELLED \<and>
   active_layer (snd (relative_layer_mask_add_execute BELOW sample_layers))
     = active_layer sample_layers \<and>
   fst (relative_layer_mask_add_execute ABOVE sample_layers) = FINISHED \<and>
   use_masks (active_layer (snd (relative_layer_mask_add_execute ABOVE sample_layers))) = True \<and>
   mask_layers (active_layer (snd (relative_layer_mask_add_execute ABOVE sample_layers)))
     = [''Wash'', ''Ink'']"
proof -
  have a: "no_mask_to_add BELOW sample_layers" "\<not> no_mask_to_add ABOVE sample_layers"
    by (simp_all add: no_mask_to_add_def sample_layers_def)
  have b: "next_node (active_layer sample_layers) = Some (GreasePencilLayer ''Ink'')"
    "mask_layers (active_layer sample_layers) = [''Wash'']"
    by (simp_all add: sample_layers_def)
  from mask_add_cancels_exactly [of BELOW sample_layers]
    mask_add_cancels_exactly [of ABOVE sample_layers] a b
  show ?thesis by auto
qed

text \<open>
  C6. A \<open>ModalDrawOperator.modal\<close> step on \<open>ESC\<close> or \<open>RIGHTMOUSE\<close> unregisters
  the operator's draw handler and returns \<open>CANCELLED\<close>, which ends the modal loop. A
  \<open>perspective_warp.modal\<close> step on \<open>ESC\<close> ends the modal loop and never returns
  \<open>PASS_THROUGH\<close>, \<open>RUNNING_MODAL\<close> or \<open>CANCELLED\<close>; it leaves the active object,
  and so every stroke point, as it was. While the context still yields a frame (the grease
  pencil object is active and has an active layer) it runs the cleanup of \<open>finish\<close>:
  with the handles in place it removes them and returns \<open>FINISHED\<close>. When the context
  yields none, \<open>finish\<close> raises \<open>AttributeError\<close> on its opening lines and the
  handles stay.
\<close>

theorem cancel_key_ends_modal:
  "(ev_type e \<in> {''ESC'', ''RIGHTMOUSE''} \<longrightarrow>
      fst (ModalDrawOperator_modal s e) = CANCELLED \<and>
      handle s \<notin> set (draw_handlers (snd (ModalDrawOperator_modal s e))) \<and>
      draw_modal_loop s (e # es) = (Some CANCELLED, snd (ModalDrawOperator_modal s e))) \<and>
   (ev_type e = ''ESC'' \<longrightarrow>
      active_object (snd (perspective_warp_modal t e)) = active_object t \<and>
      fst (perspective_warp_modal t e) \<noteq> Inr PASS_THROUGH \<and>
      fst (perspective_warp_modal t e) \<noteq> Inr RUNNING_MODAL \<and>
      fst (perspective_warp_modal t e) \<noteq> Inr CANCELLED \<and>
      warp_modal_loop t (e # es) = (Some (fst (perspective_warp_modal t e)),
                                    snd (perspective_warp_modal t e)) \<and>
      ((\<exists>frame. context_frame t = Inr frame) \<longrightarrow>
         perspective_warp_modal t e = finish_cleanup (t\<lparr>confirm := False\<rparr>)) \<and>
      (\<forall>hs. (\<exists>frame. context_frame t = Inr frame) \<and> handles t = Some hs \<and> distinct hs \<and>
            (\<forall>h \<in> set hs. data_objects t h \<noteq> None) \<longrightarrow>
         fst (perspective_warp_modal t e) = Inr FINISHED \<and>
         handles_removed hs (snd (perspective_warp_modal t e))) \<and>
      ((\<exists>err. context_frame t = Inl err) \<longrightarrow>
         perspective_warp_modal t e = (Inl AttributeError, t\<lparr>confirm := False\<rparr>)))"
proof (intro conjI impI allI)
  assume e: "ev_type e \<in> {''ESC'', ''RIGHTMOUSE''}"
  then show c: "fst (ModalDrawOperator_modal s e) = CANCELLED"
    by (auto simp: draw_defs Let_def)
  from e show "handle s \<notin> set (draw_handlers (snd (ModalDrawOperator_modal s e)))"
    by (auto simp: draw_defs Let_def)
  from c show "draw_modal_loop s (e # es) = (Some CANCELLED, snd (ModalDrawOperator_modal s e))"
    by (simp add: draw_modal_loop_def split_beta)
next
  assume e: "ev_type e = ''ESC''"
  note m = modal_cancel [OF e, of t]
  show "active_object (snd (perspective_warp_modal t e)) = active_object t"
    unfolding m by (cases "context_frame t") (simp_all add: finish_cleanup_object)
  have st: "st = FINISHED" if "fst (perspective_warp_modal t e) = Inr st" for st
    using that finish_cleanup_status [of "t\<lparr>confirm := False\<rparr>" st]
    unfolding m by (cases "context_frame t") simp_all
  from st show n1: "fst (perspective_warp_modal t e) \<noteq> Inr PASS_THROUGH" by fastforce
  from st show n2: "fst (perspective_warp_modal t e) \<noteq> Inr RUNNING_MODAL" by fastforce
  from st show "fst (perspective_warp_modal t e) \<noteq> Inr CANCELLED" by fastforce
  from n1 n2 show "warp_modal_loop t (e # es) = (Some (fst (perspective_warp_modal t e)),
                                    snd (perspective_warp_modal t e))"
    by (simp add: warp_modal_loop_def split_beta)
next
  assume e: "ev_type e = ''ESC''" and "\<exists>frame. context_frame t = Inr frame"
  then show "perspective_warp_modal t e = finish_cleanup (t\<lparr>confirm := False\<rparr>)"
    by (auto simp: modal_cancel)
next
  fix hs
  assume e: "ev_type e = ''ESC''"
    and h: "(\<exists>frame. context_frame t = Inr frame) \<and> handles t = Some hs \<and> distinct hs \<and>
            (\<forall>h \<in> set hs. data_objects t h \<noteq> None)"
  have m: "perspective_warp_modal t e = finish_cleanup (t\<lparr>confirm := False\<rparr>)"
    using e h by (auto simp: modal_cancel)
  from h have "handles (t\<lparr>confirm := False\<rparr>) = Some hs" "distinct hs"
    "\<forall>h \<in> set hs. data_objects (t\<lparr>confirm := False\<rparr>) h \<noteq> None"
    by simp_all
  from finish_cleanup_ok [OF this] m
  show "fst (perspective_warp_modal t e) = Inr FINISHED"
    "handles_removed hs (snd (perspective_warp_modal t e))"
    by simp_all
next
  assume e: "ev_type e = ''ESC''" and "\<exists>err. context_frame t = Inl err"
  then obtain err where err: "context_frame t = Inl err" by blast
  then have "err = AttributeError" by (rule context_frame_error)
  with err e show "perspective_warp_modal t e = (Inl AttributeError, t\<lparr>confirm := False\<rparr>)"
    by (simp add: modal_cancel)
qed

text \<open>
  The theorem at a drawing session, at a freshly invoked warp, and at the same warp
  after one of its handles has been selected.
\<close>

theorem cancel_key_ends_modal_witness:
  "fst (ModalDrawOperator_modal one_undone (ev ''ESC'' ''PRESS'' 0 0)) = CANCELLED \<and>
   draw_handlers (snd (ModalDrawOperator_modal one_undone (ev ''ESC'' ''PRESS'' 0 0))) = [] \<and>
   draw_modal_loop one_undone [ev ''ESC'' ''PRESS'' 0 0, ev ''Y'' ''PRESS'' 0 0]
     = (Some CANCELLED, snd (ModalDrawOperator_modal one_undone (ev ''ESC'' ''PRESS'' 0 0))) \<and>
   fst (perspective_warp_modal (snd (perspective_warp_invoke diagonal_scene))
          (ev ''ESC'' ''PRESS'' 0 0)) = Inr FINISHED \<and>
   handles_removed [0, 1, 2, 3]
     (snd (perspective_warp_modal (snd (perspective_warp_invoke diagonal_scene))
             (ev ''ESC'' ''PRESS'' 0 0))) \<and>
   perspective_warp_modal handle_selected (ev ''ESC'' ''PRESS'' 0 0)
     = (Inl AttributeError, handle_selected\<lparr>confirm := False\<rparr>) \<and>
   handles (handle_selected\<lparr>confirm := False\<rparr>) = Some [0, 1, 2, 3]"
proof -
  let ?e = "ev ''ESC'' ''PRESS'' 0 0"
  let ?s = "snd (perspective_warp_invoke diagonal_scene)"
  have e: "ev_type ?e \<in> {''ESC'', ''RIGHTMOUSE''}" "ev_type ?e = ''ESC''"
    by (simp_all add: ev_def)
  have d: "draw_handlers (snd (ModalDrawOperator_modal one_undone ?e)) = []"
    by (simp add: one_undone_def draw_modal_loop_def started_eq module_init_def draw_defs
        ev_def Let_def)
  have cf: "\<exists>frame. context_frame ?s = Inr frame"
    by (simp add: invoke_context_frame diagonal_scene_def context_frame_scene)
  have h: "(\<exists>frame. context_frame ?s = Inr frame) \<and> handles ?s = Some [0, 1, 2, 3] \<and>
           distinct [0::nat, 1, 2, 3] \<and> (\<forall>h \<in> set [0, 1, 2, 3]. data_objects ?s h \<noteq> None)"
    using cf diagonal_invoked(2,5) by simp
  have x: "\<exists>err. context_frame handle_selected = Inl err"
    by (simp add: handle_selected_def context_frame_def)
  have hh: "handles (handle_selected\<lparr>confirm := False\<rparr>) = Some [0, 1, 2, 3]"
    using diagonal_invoked(2) by (simp add: handle_selected_def)
  from cancel_key_ends_modal [of ?e one_undone "[ev ''Y'' ''PRESS'' 0 0]" ?s]
    cancel_key_ends_modal [of ?e one_undone "[]" handle_selected] e d h x hh
  show ?thesis by blast
qed

text \<open>
  C6 as stated fails: on \<open>ESC\<close> the warp operator returns \<open>FINISHED\<close>, not a
  cancellation code.
\<close>

theorem warp_escape_returns_finished:
  "fst (perspective_warp_modal (snd (perspective_warp_invoke diagonal_scene))
          (ev ''ESC'' ''PRESS'' 0 0)) = Inr FINISHED \<and>
   fst (perspective_warp_modal (snd (perspective_warp_invoke diagonal_scene))
          (ev ''ESC'' ''PRESS'' 0 0)) \<noteq> Inr CANCELLED"
proof -
  let ?s = "snd (perspective_warp_invoke diagonal_scene)"
  obtain frame where cf: "context_frame ?s = Inr frame"
    by (simp add: invoke_context_frame diagonal_scene_def context_frame_scene)
  have m: "perspective_warp_modal ?s (ev ''ESC'' ''PRESS'' 0 0)
             = finish_cleanup (?s\<lparr>confirm := False\<rparr>)"
    using cf by (simp add: modal_cancel ev_def)
  have "handles (?s\<lparr>confirm := False\<rparr>) = Some [0, 1, 2, 3]" "distinct [0::nat, 1, 2, 3]"
    "\<forall>h \<in> set [0, 1, 2, 3]. data_objects (?s\<lparr>confirm := False\<rparr>) h \<noteq> None"
    using diagonal_invoked(2,5) by simp_all
  from finish_cleanup_ok [OF this]
  have "fst (finish_cleanup (?s\<lparr>confirm := False\<rparr>)) = Inr FINISHED" by simp
  then show ?thesis unfolding m by simp
qed

text \<open>
  C7. The handles are meant to be removed whether the warp is confirmed or cancelled.
  For a stroke that is a horizontal segment the bounding box is degenerate, the system
  is singular, and confirming with \<open>RET\<close> raises \<open>LinAlgError\<close> inside
  \<open>compute_matrix\<close> before the removal loop is reached: the four handles stay.
\<close>

theorem confirm_singular_keeps_handles:
  "fst (perspective_warp_invoke segment_scene) = Inr RUNNING_MODAL \<and>
   handles (snd (perspective_warp_invoke segment_scene)) = Some [0, 1, 2, 3] \<and>
   fst (perspective_warp_modal (snd (perspective_warp_invoke segment_scene))
          (ev ''RET'' ''PRESS'' 0 0)) = Inl LinAlgError \<and>
   handles (snd (perspective_warp_modal (snd (perspective_warp_invoke segment_scene))
                   (ev ''RET'' ''PRESS'' 0 0))) = Some [0, 1, 2, 3] \<and>
   map (\<lambda>h. data_objects (snd (perspective_warp_modal (snd (perspective_warp_invoke segment_scene))
                                 (ev ''RET'' ''PRESS'' 0 0))) h = None) [0, 1, 2, 3]
     = [False, False, False, False] \<and>
   collection_objects (snd (perspective_warp_modal (snd (perspective_warp_invoke segment_scene))
                              (ev ''RET'' ''PRESS'' 0 0))) = [0, 1, 2, 3]"
proof -
  let ?s = "snd (perspective_warp_invoke segment_scene)"
  have "perspective_warp_finish (?s\<lparr>confirm := True\<rparr>) = (Inl LinAlgError, ?s\<lparr>confirm := True\<rparr>)"
    by (rule finish_confirm_error [where hs = "[0, 1, 2, 3]"
          and dst = "[(0, 0), (1, 0), (1, 0), (0, 0)]"
          and frame = "Some \<lparr>frame_strokes =
            [\<lparr>points = [\<lparr>co_x = 0, co_y = 0, co_z = 0\<rparr>, \<lparr>co_x = 1, co_y = 0, co_z = 0\<rparr>]\<rparr>]\<rparr>"])
       (use segment_invoked singular_segment segment_context in
          \<open>simp_all del: handle_locations.simps\<close>)
  then have "perspective_warp_modal ?s (ev ''RET'' ''PRESS'' 0 0)
               = (Inl LinAlgError, ?s\<lparr>confirm := True\<rparr>)"
    by (simp add: modal_confirm ev_def)
  then show ?thesis
    using segment_invoked by simp
qed

text \<open>
  C9. \<open>StrokeUndo.execute\<close> on empty \<open>strokes\<close> and \<open>StrokeRedo.execute\<close> on
  empty \<open>redo_stack\<close> leave the state unchanged and return \<open>FINISHED\<close>; both return
  \<open>FINISHED\<close> in every state.
\<close>

theorem undo_redo_empty:
  "(strokes s = [] \<longrightarrow> StrokeUndo_execute s = (FINISHED, s)) \<and>
   (redo_stack s = [] \<longrightarrow> StrokeRedo_execute s = (FINISHED, s)) \<and>
   fst (StrokeUndo_execute s) = FINISHED \<and> fst (StrokeRedo_execute s) = FINISHED"
  by (simp add: draw_defs)

text \<open>
  The theorem at a state with empty \<open>strokes\<close> and one with empty \<open>redo_stack\<close>.
\<close>

theorem undo_redo_empty_witness:
  "StrokeUndo_execute one_undone = (FINISHED, one_undone) \<and>
   StrokeRedo_execute started = (FINISHED, started)"
proof -
  have "strokes one_undone = []" by (simp add: one_undone_fields)
  moreover have "redo_stack started = []" by (simp add: started_eq module_init_def)
  ultimately show ?thesis
    using undo_redo_empty [of one_undone] undo_redo_empty [of started] by blast
qed

text \<open>
  C10. On a \<open>MOUSEMOVE\<close> event with \<open>current_stroke\<close> not \<open>None\<close>, the step
  appends exactly \<open>(mouse_region_x, mouse_region_y)\<close> to the list \<open>current_stroke\<close>
  refers to, leaves \<open>strokes\<close> and \<open>redo_stack\<close> holding the same references, and
  leaves every list other than the one \<open>current_stroke\<close> refers to unchanged.
\<close>

theorem mousemove_appends:
  assumes "ev_type e = ''MOUSEMOVE''" "current_stroke s = Some c"
  shows "fst (ModalDrawOperator_modal s e) = RUNNING_MODAL \<and>
         heap (snd (ModalDrawOperator_modal s e)) c
           = heap s c @ [(mouse_region_x e, mouse_region_y e)] \<and>
         (\<forall>r. r \<noteq> c \<longrightarrow> heap (snd (ModalDrawOperator_modal s e)) r = heap s r) \<and>
         strokes (snd (ModalDrawOperator_modal s e)) = strokes s \<and>
         redo_stack (snd (ModalDrawOperator_modal s e)) = redo_stack s \<and>
         current_stroke (snd (ModalDrawOperator_modal s e)) = Some c \<and>
         contents (snd (ModalDrawOperator_modal s e)) (filter (\<lambda>r. r \<noteq> c) (strokes s))
           = contents s (filter (\<lambda>r. r \<noteq> c) (strokes s)) \<and>
         contents (snd (ModalDrawOperator_modal s e)) (filter (\<lambda>r. r \<noteq> c) (redo_stack s))
           = contents s (filter (\<lambda>r. r \<noteq> c) (redo_stack s))"
  using assms by (simp add: draw_defs Let_def contents_def)

text \<open>
  The theorem after a stroke has been drawn, released and undone.
\<close>

theorem mousemove_appends_witness:
  "heap (snd (ModalDrawOperator_modal one_undone (ev ''MOUSEMOVE'' ''NOTHING'' 3 4))) 2 = [(3, 4)] \<and>
   contents (snd (ModalDrawOperator_modal one_undone (ev ''MOUSEMOVE'' ''NOTHING'' 3 4))) [1]
     = [[(1, 1)]]"
  using mousemove_appends [of "ev ''MOUSEMOVE'' ''NOTHING'' 3 4" one_undone 2]
  by (simp add: one_undone_fields ev_def contents_def)

text \<open>
  C10 as stated fails: after \<open>LEFTMOUSE PRESS\<close> and \<open>Z PRESS\<close> the list
  \<open>current_stroke\<close> refers to is the entry of \<open>redo_stack\<close>, and a \<open>MOUSEMOVE\<close>
  changes that entry.
\<close>

theorem mousemove_changes_redo_entry:
  "current_stroke undone_mid_stroke = Some 1 \<and>
   redo_stack undone_mid_stroke = [1] \<and>
   contents undone_mid_stroke (redo_stack undone_mid_stroke) = [[]] \<and>
   contents (snd (ModalDrawOperator_modal undone_mid_stroke (ev ''MOUSEMOVE'' ''NOTHING'' 3 4)))
            (redo_stack (snd (ModalDrawOperator_modal undone_mid_stroke
                                (ev ''MOUSEMOVE'' ''NOTHING'' 3 4))))
     = [[(3, 4)]]"
  by (simp add: undone_mid_stroke_fields contents_def draw_defs Let_def ev_def)

end
